theory Spec2Isabelle
  imports Complex_Main
begin

section \<open>The physics world of \<open>EmojiPhysics\<close>\<close>

text \<open>
  The class \<open>EmojiPhysics\<close> (src/src/EmojiPhysics.ts) drives a Matter.js world. Its
  methods are embedded as functions on a record of the instance's fields, of the part of
  the Matter.js engine state they touch, and of the pending browser callbacks.

  JavaScript numbers are modelled as \<open>real\<close> for coordinates and sizes and as \<open>int\<close> for
  the counter \<open>_emojiCount\<close> (which \<open>++\<close>/\<open>--\<close> move by one and nothing bounds below).
  Rounding of IEEE doubles, \<open>NaN\<close> and infinities are outside the model.
\<close>

type_synonym vec = "real \<times> real"

text \<open>The geometry a body was built from (\<open>Bodies.circle\<close>, \<open>Bodies.rectangle\<close>, or a
  compound made by \<open>Body.create\<close> from parts).\<close>

datatype shape = Circle real | Rectangle real real | Compound

text \<open>Ghost information: the method of \<open>EmojiPhysics\<close> whose call built the body. The
  code never reads it; the theorems use it to name the bodies a claim is about.\<close>

datatype maker = Boundary | Peg | Slat | Paddlewheel | Paddle | Pendulum | EmojiBall

text \<open>
  A Matter.js body, reduced to the fields this class reads or writes. \<open>ident\<close> is the
  field \<open>id\<close>; \<open>texture\<close> is \<open>render.sprite.texture\<close>. Material parameters that only the
  engine's integrator reads (friction, restitution, density, inertia, fill style) are
  left out.

  In Matter.js \<open>body.parts\<close> is the body itself followed by the parts it was composed
  from. A \<open>body\<close> is therefore a \<open>part\<close> extended by its \<open>children\<close>, and \<open>parts\<close>
  puts the body first.
\<close>

record part =
  ident :: nat
  label :: string
  isStatic :: bool
  position :: vec
  angle :: real
  force :: vec
  torque :: real
  shape :: shape
  texture :: "string option"
  maker :: maker

record body = part +
  children :: "part list"

definition parts :: "body \<Rightarrow> part list" where
  "parts b = part.truncate b # children b"

record constraint =
  constraintId :: nat
  pointA :: vec
  bodyB :: nat
  restLength :: real
  stiffness :: real

text \<open>The shared off-screen canvas of \<open>createEmojiTexture\<close>: its size and text settings,
  and what has been drawn on it since it was last cleared.\<close>

record canvas =
  canvasWidth :: real
  canvasHeight :: real
  font :: string
  textAlign :: string
  textBaseline :: string
  drawn :: "(string \<times> real \<times> real) list"

text \<open>An image whose load was started by \<open>addSwingingBall\<close> and has neither completed
  nor failed yet. The \<open>onload\<close> closure captured \<open>constraintLength\<close> and the image's
  \<open>src\<close>.\<close>

record pendingImage =
  constraintLength :: real
  src :: string

record state =
  RenderWidth :: real
  RenderHeight :: real
  RenderTop :: real
  emojiCount :: int
  bigBallId :: nat
  bigBall :: "nat option"
  emojiMap :: "string \<rightharpoonup> string"
  sharedCanvas :: "canvas option"
  swingDirection :: int
  worldBodies :: "nat list"
  worldConstraints :: "constraint list"
  heap :: "nat \<rightharpoonup> body"
  nextId :: nat
  pendingImages :: "pendingImage list"
  console :: "string list"
  rasterLog :: "string list"

text \<open>
  \<open>worldBodies\<close> is the array \<open>world.bodies\<close>, holding references; \<open>heap\<close> maps the
  reference of every body that was ever added to the world to the object, so that
  \<open>_bigBall\<close> and the world share one object. \<open>nextId\<close> is Matter's global id counter
  (\<open>Common._nextId\<close>). \<open>console\<close> collects the \<open>console.error\<close> messages and \<open>rasterLog\<close>
  (ghost) the symbols drawn by \<open>createEmojiTexture\<close>, one entry per call.
\<close>

subsection \<open>Constants of the class\<close>

definition MAX_EMOJIS :: int where "MAX_EMOJIS = 1000"
definition bottomBorderHeight :: real where "bottomBorderHeight = 20"
definition bottomBorderOffset :: real where "bottomBorderOffset = 20"
definition BIG_BALL_RADIUS :: real where "BIG_BALL_RADIUS = 50"
definition swingForce :: real where "swingForce = 50"

subsection \<open>The Matter.js operations the class calls\<close>

text \<open>\<open>Bodies.circle\<close>, \<open>Bodies.rectangle\<close> and \<open>Body.create\<close> with parts. Each takes
  the id that \<open>Common.nextId()\<close> hands out. \<open>Bodies.circle\<close> labels its body
  \<open>Circle Body\<close>, \<open>Bodies.rectangle\<close> \<open>Rectangle Body\<close>, and \<open>Body.create\<close> \<open>Body\<close>.
  The parts given to \<open>Body.create\<close> stay the objects they were, with their own id,
  label and \<open>isStatic\<close>, and become \<open>parts[1..]\<close> of the compound. A compound's
  position is the centre of mass of its parts, which all sit at the same point in this
  class.\<close>

definition Bodies_circle ::
  "nat \<Rightarrow> real \<Rightarrow> real \<Rightarrow> real \<Rightarrow> bool \<Rightarrow> string option \<Rightarrow> maker \<Rightarrow> body" where
  "Bodies_circle i x y r static tex mk =
     \<lparr>ident = i, label = ''Circle Body'', isStatic = static, position = (x, y), angle = 0,
      force = (0, 0), torque = 0, shape = Circle r, texture = tex, maker = mk,
      children = []\<rparr>"

definition Bodies_rectangle ::
  "nat \<Rightarrow> real \<Rightarrow> real \<Rightarrow> real \<Rightarrow> real \<Rightarrow> bool \<Rightarrow> maker \<Rightarrow> body" where
  "Bodies_rectangle i x y w h static mk =
     \<lparr>ident = i, label = ''Rectangle Body'', isStatic = static, position = (x, y), angle = 0,
      force = (0, 0), torque = 0, shape = Rectangle w h, texture = None, maker = mk,
      children = []\<rparr>"

definition Body_create :: "nat \<Rightarrow> vec \<Rightarrow> body list \<Rightarrow> bool \<Rightarrow> maker \<Rightarrow> body" where
  "Body_create i centre ps static mk =
     \<lparr>ident = i, label = ''Body'', isStatic = static, position = centre, angle = 0,
      force = (0, 0), torque = 0, shape = Compound, texture = None, maker = mk,
      children = map part.truncate ps\<rparr>"

text \<open>\<open>Common.nextId()\<close>: hand the counter's value to a constructor and advance it.\<close>

definition create :: "(nat \<Rightarrow> 'a) \<Rightarrow> state \<Rightarrow> 'a \<times> state" where
  "create mk st = (mk (nextId st), st\<lparr>nextId := nextId st + 1\<rparr>)"

text \<open>\<open>World.add\<close> of a body pushes it onto \<open>world.bodies\<close>; of a constraint, onto
  \<open>world.constraints\<close>. \<open>World.remove\<close> of a body looks the object up in \<open>world.bodies\<close>
  (\<open>indexOf\<close>) and splices it out when found; an object that is not a member, such as a
  part of a compound, is left alone. \<open>World.clear(world, false)\<close> empties both arrays.
  \<open>Composite.allBodies\<close> is a copy of \<open>world.bodies\<close> (the world has no nested
  composites).\<close>

definition World_add :: "body \<Rightarrow> state \<Rightarrow> state" where
  "World_add b st =
     st\<lparr>worldBodies := worldBodies st @ [ident b], heap := (heap st)(ident b \<mapsto> b)\<rparr>"

definition World_add_constraint :: "constraint \<Rightarrow> state \<Rightarrow> state" where
  "World_add_constraint c st = st\<lparr>worldConstraints := worldConstraints st @ [c]\<rparr>"

definition World_remove :: "part \<Rightarrow> state \<Rightarrow> state" where
  "World_remove p st = st\<lparr>worldBodies := remove1 (ident p) (worldBodies st)\<rparr>"

definition World_clear :: "state \<Rightarrow> state" where
  "World_clear st = st\<lparr>worldBodies := [], worldConstraints := []\<rparr>"

definition allBodies :: "state \<Rightarrow> body list" where
  "allBodies st = List.map_filter (heap st) (worldBodies st)"

subsection \<open>The texture cache\<close>

text \<open>\<open>createEmojiTexture\<close> creates the shared canvas on first use, clears it
  (\<open>clearRect\<close> over the whole canvas), draws the symbol at the centre and returns
  \<open>canvas.toDataURL()\<close>. The browser's encoder is the parameter \<open>toDataURL\<close>.\<close>

definition createEmojiTexture :: "(canvas \<Rightarrow> string) \<Rightarrow> string \<Rightarrow> state \<Rightarrow> string \<times> state" where
  "createEmojiTexture toDataURL emoji st =
     (let c0 = (case sharedCanvas st of
                  None \<Rightarrow> \<lparr>canvasWidth = 32, canvasHeight = 32, font = ''28px sans-serif'',
                           textAlign = ''center'', textBaseline = ''middle'', drawn = []\<rparr>
                | Some c \<Rightarrow> c);
          c1 = c0\<lparr>drawn := []\<rparr>;
          c2 = c1\<lparr>drawn := drawn c1 @ [(emoji, canvasWidth c1 / 2, canvasHeight c1 / 2)]\<rparr>
      in (toDataURL c2, st\<lparr>sharedCanvas := Some c2, rasterLog := rasterLog st @ [emoji]\<rparr>))"

definition getEmojiTexture :: "(canvas \<Rightarrow> string) \<Rightarrow> string \<Rightarrow> state \<Rightarrow> string \<times> state" where
  "getEmojiTexture toDataURL emoji st =
     (case emojiMap st emoji of
        Some cached \<Rightarrow> (cached, st)
      | None \<Rightarrow>
          (let (texture, st1) = createEmojiTexture toDataURL emoji st
           in (texture, st1\<lparr>emojiMap := (emojiMap st1)(emoji \<mapsto> texture)\<rparr>)))"

subsection \<open>Spawning, cleanup and clear-all\<close>

text \<open>\<open>CreateEmojiBall\<close>; \<open>rnd\<close> is the value of \<open>Math.random()\<close>. The result is the
  ball, or \<open>None\<close> for the \<open>undefined\<close> of the early return. \<open>Bodies.circle\<close> always
  returns an object, so the \<open>if (ball)\<close> test sees \<open>Some\<close>; the \<open>else\<close> branch is kept
  as the source has it.\<close>

definition CreateEmojiBall ::
  "(canvas \<Rightarrow> string) \<Rightarrow> string \<Rightarrow> real \<Rightarrow> state \<Rightarrow> body option \<times> state" where
  "CreateEmojiBall toDataURL emoji rnd st =
     (if emojiCount st \<ge> MAX_EMOJIS
      then (None, st\<lparr>console := console st @ [''Max emoji count exceeded...'']\<rparr>)
      else
        (let (emojiTexture, st1) = getEmojiTexture toDataURL emoji st;
             st2 = st1\<lparr>emojiCount := emojiCount st1 + 1\<rparr>;
             randomOffset = (rnd * 2 - 1) * RenderWidth st2 / 50;
             (ball, st3) = create (\<lambda>i. Some (Bodies_circle i (RenderWidth st2 / 2 + randomOffset)
                                           0 10 False (Some emojiTexture) EmojiBall)) st2
         in case ball of
              Some b \<Rightarrow> (ball, World_add b st3)
            | None \<Rightarrow> (ball, st3\<lparr>console := console st3 @ [''Failed to create emoji ball.''],
                                emojiCount := emojiCount st3 - 1\<rparr>)))"

text \<open>The test both passes apply to a part, and the bounds test of the cleanup pass.\<close>

definition isEmoji :: "state \<Rightarrow> part \<Rightarrow> bool" where
  "isEmoji st p \<longleftrightarrow> label p = ''Circle Body'' \<and> isStatic p = False \<and> ident p \<noteq> bigBallId st"

definition outOfBounds :: "state \<Rightarrow> part \<Rightarrow> bool" where
  "outOfBounds st p \<longleftrightarrow>
     (case position p of (x, y) \<Rightarrow> y > RenderHeight st \<or> x < 0 \<or> x > RenderWidth st)"

text \<open>The body of the \<open>afterRender\<close> handler for one part, and the handler: it walks
  the parts of every body of a copy of the world's body list.\<close>

definition cleanupPart :: "part \<Rightarrow> state \<Rightarrow> state" where
  "cleanupPart p st =
     (if isEmoji st p
      then (if outOfBounds st p
            then (let st1 = World_remove p st in st1\<lparr>emojiCount := emojiCount st1 - 1\<rparr>)
            else st)
      else st)"

definition afterRender :: "state \<Rightarrow> state" where
  "afterRender st = fold (\<lambda>compound. fold cleanupPart (parts compound)) (allBodies st) st"

definition clearPart :: "part \<Rightarrow> state \<Rightarrow> state" where
  "clearPart p st =
     (if isEmoji st p
      then (let st1 = World_remove p st in st1\<lparr>emojiCount := emojiCount st1 - 1\<rparr>)
      else st)"

definition ClearAllEmojis :: "state \<Rightarrow> state" where
  "ClearAllEmojis st = fold (\<lambda>compound. fold clearPart (parts compound)) (allBodies st) st"

subsection \<open>The swing force\<close>

text \<open>\<open>Math.atan2(y, x)\<close> on reals: the angle of the vector \<open>(x, y)\<close> against the
  positive x axis, in \<open>(-\<pi>, \<pi>]\<close>. (The sign of a zero, which IEEE \<open>atan2\<close> looks at,
  does not change the absolute value the handler uses.)\<close>

definition atan2 :: "real \<Rightarrow> real \<Rightarrow> real" where
  "atan2 y x =
     (if x > 0 then arctan (y / x)
      else if x < 0 then (if y \<ge> 0 then arctan (y / x) + pi else arctan (y / x) - pi)
      else if y > 0 then pi / 2
      else if y < 0 then - pi / 2
      else 0)"

definition bigBallAnchorPoint :: "state \<Rightarrow> vec" where
  "bigBallAnchorPoint st = (RenderWidth st / 2, 0)"

text \<open>\<open>Body.applyForce(body, position, force)\<close> on the object behind a reference.\<close>

definition Body_applyForce :: "nat \<Rightarrow> vec \<Rightarrow> vec \<Rightarrow> state \<Rightarrow> state" where
  "Body_applyForce r pos f st =
     (case heap st r of
        None \<Rightarrow> st
      | Some b \<Rightarrow>
          st\<lparr>heap := (heap st)(r \<mapsto>
               b\<lparr>force := (fst (force b) + fst f, snd (force b) + snd f),
                 torque := torque b + ((fst pos - fst (position b)) * snd f
                                       - (snd pos - snd (position b)) * fst f)\<rparr>)\<rparr>)"

text \<open>The angle the handler computes for a pendulum body, and the \<open>beforeUpdate\<close>
  handler. \<open>_bigBall\<close> is \<open>undefined\<close> until an image load completes. (A reference
  without an object does not occur; the model leaves the state alone there.)\<close>

definition swingAngle :: "state \<Rightarrow> body \<Rightarrow> real" where
  "swingAngle st b =
     atan2 (snd (position b) - snd (bigBallAnchorPoint st))
           (fst (position b) - fst (bigBallAnchorPoint st))"

definition bigBallBody :: "state \<Rightarrow> body option" where
  "bigBallBody st = (case bigBall st of None \<Rightarrow> None | Some r \<Rightarrow> heap st r)"

definition beforeUpdate :: "state \<Rightarrow> state" where
  "beforeUpdate st =
     (case bigBall st of
        None \<Rightarrow> st
      | Some r \<Rightarrow>
          (case heap st r of
             None \<Rightarrow> st
           | Some b \<Rightarrow>
               (let angle = swingAngle st b;
                    st1 = (if \<bar>angle\<bar> > pi * 0.7 \<and> swingDirection st = -1
                           then st\<lparr>swingDirection := 1\<rparr>
                           else if \<bar>angle\<bar> < pi * 0.3 \<and> swingDirection st = 1
                           then st\<lparr>swingDirection := -1\<rparr>
                           else st)
                in if (swingDirection st1 = 1 \<and> \<bar>angle\<bar> < pi / 2) \<or>
                      (swingDirection st1 = -1 \<and> \<bar>angle\<bar> > pi / 2)
                   then Body_applyForce r (position b)
                          (real_of_int (swingDirection st1) * swingForce, 0) st1
                   else st1)))"

text \<open>
  One \<open>Engine.update\<close>: the \<open>beforeUpdate\<close> handler runs, then the engine integrates,
  resolves collisions and constraints, and clears the forces. The integrator is not
  modelled: \<open>mv\<close> gives the new position and angle of every non-static body and part of
  the world by its id, and may be any function. Static bodies do not move.
\<close>

type_synonym motion = "nat \<Rightarrow> vec \<times> real"

definition movePart :: "motion \<Rightarrow> 'a part_scheme \<Rightarrow> 'a part_scheme" where
  "movePart mv p =
     (if isStatic p then p\<lparr>force := (0, 0), torque := 0\<rparr>
      else p\<lparr>position := fst (mv (ident p)), angle := snd (mv (ident p)),
             force := (0, 0), torque := 0\<rparr>)"

definition moveBody :: "motion \<Rightarrow> body \<Rightarrow> body" where
  "moveBody mv b = (movePart mv b)\<lparr>children := map (movePart mv) (children b)\<rparr>"

definition engineUpdate :: "motion \<Rightarrow> state \<Rightarrow> state" where
  "engineUpdate mv st =
     (let st1 = beforeUpdate st
      in st1\<lparr>heap := (\<lambda>r. if r \<in> set (worldBodies st1)
                            then map_option (moveBody mv) (heap st1 r)
                            else heap st1 r)\<rparr>)"

subsection \<open>The obstacle layouts\<close>

text \<open>\<open>Body.rotate\<close> about the body's own position, \<open>Body.translate\<close> and
  \<open>Body.setAngle\<close>, on a body without children.\<close>

definition Body_rotate :: "real \<Rightarrow> body \<Rightarrow> body" where
  "Body_rotate a b = b\<lparr>angle := angle b + a\<rparr>"

definition Body_translate :: "vec \<Rightarrow> body \<Rightarrow> body" where
  "Body_translate v b = b\<lparr>position := (fst (position b) + fst v, snd (position b) + snd v)\<rparr>"

definition Body_setAngle :: "real \<Rightarrow> body \<Rightarrow> body" where
  "Body_setAngle a b = b\<lparr>angle := a\<rparr>"

text \<open>\<open>createPegs\<close>: the two nested \<open>for\<close> loops push a peg where row and column have
  the same parity; \<open>Math.round\<close> is \<open>round\<close> (half up), and a loop bound that is not
  positive gives no iteration.\<close>

definition pegStep ::
  "real \<Rightarrow> real \<Rightarrow> real \<Rightarrow> real \<Rightarrow> nat \<Rightarrow> nat \<Rightarrow> body list \<times> state \<Rightarrow> body list \<times> state" where
  "pegStep radius spacing startX startY row col acc =
     (case acc of (pegs, st) \<Rightarrow>
        if (row mod 2 = 0 \<and> col mod 2 = 0) \<or> (row mod 2 \<noteq> 0 \<and> col mod 2 \<noteq> 0)
        then (let x = startX + real col * spacing;
                  y = startY + real row * spacing;
                  (peg, st1) = create (\<lambda>i. Bodies_circle i x y radius True None Peg) st
              in (pegs @ [peg], st1))
        else (pegs, st))"

definition createPegs :: "real \<Rightarrow> real \<Rightarrow> state \<Rightarrow> state" where
  "createPegs radius spacing st =
     (let rows = round (RenderHeight st / 75);
          cols = round (RenderHeight st / 33.33);
          startX = RenderWidth st / 2 - (real_of_int cols - 1) * spacing / 2;
          startY = (RenderHeight st - BIG_BALL_RADIUS * 2) / 2
                     - (real_of_int rows - 1) * spacing / 2;
          (pegs, st1) =
             fold (\<lambda>row. fold (pegStep radius spacing startX startY row) [0..<nat cols])
                  [0..<nat rows] ([], st)
      in fold World_add pegs st1)"

definition slatStep :: "real \<Rightarrow> real \<Rightarrow> int \<Rightarrow> nat \<Rightarrow> body list \<times> state \<Rightarrow> body list \<times> state" where
  "slatStep w h slatCount i acc =
     (case acc of (slats, st) \<Rightarrow>
        (let (rect, st1) =
               create (\<lambda>j. Bodies_rectangle j (w / 2)
                              ((h - BIG_BALL_RADIUS * 2) / 2 - (real_of_int slatCount / 2 * 75)
                                 + real i * 75)
                              250 10 True Slat) st;
             rect1 = (if i mod 2 = 0
                      then Body_translate (-120, 0) (Body_rotate (pi / 8) rect)
                      else Body_translate (120, 0) (Body_rotate (-1 * pi / 8) rect))
         in (slats @ [rect1], st1)))"

definition createSlats :: "state \<Rightarrow> state" where
  "createSlats st =
     (let slatCount = round (RenderHeight st / 150);
          (slats, st1) =
             fold (slatStep (RenderWidth st) (RenderHeight st) slatCount)
                  [0..<nat slatCount] ([], st)
      in fold World_add slats st1)"

definition paddleStep ::
  "real \<Rightarrow> real \<Rightarrow> real \<Rightarrow> real \<Rightarrow> real \<Rightarrow> nat \<Rightarrow> body list \<times> state \<Rightarrow> body list \<times> state" where
  "paddleStep x y len paddleWidth angleStep i acc =
     (case acc of (paddles, st) \<Rightarrow>
        (let (paddle, st1) =
               create (\<lambda>j. Bodies_rectangle j x y len paddleWidth False Paddlewheel) st
         in (paddles @ [Body_setAngle (real i * angleStep) paddle], st1)))"

definition createPaddlewheel :: "real \<Rightarrow> real \<Rightarrow> real \<Rightarrow> real \<Rightarrow> state \<Rightarrow> state" where
  "createPaddlewheel x y radius len st =
     (let (circle, st1) = create (\<lambda>i. Bodies_circle i x y radius False None Paddlewheel) st;
          numPaddles = (4::nat);
          angleStep = pi / real numPaddles;
          paddleWidth = 10;
          (paddles, st2) =
             fold (paddleStep x y len paddleWidth angleStep) [0..<numPaddles] ([], st1);
          (wheel, st3) =
             create (\<lambda>i. Body_create i (x, y) (circle # paddles) False Paddlewheel) st2;
          (centerConstraint, st4) =
             create (\<lambda>i. \<lparr>constraintId = i, pointA = (x, y), bodyB = ident wheel,
                          restLength = 0, stiffness = 1\<rparr>) st3
      in World_add_constraint centerConstraint (World_add wheel st4))"

text \<open>\<open>createPaddle\<close> gives its constraint no stiffness; \<open>Constraint.create\<close> then
  takes 0.7 for a constraint of length 0.\<close>

definition createPaddle :: "real \<Rightarrow> real \<Rightarrow> real \<Rightarrow> state \<Rightarrow> state" where
  "createPaddle x y len st =
     (let paddleWidth = 10;
          (paddle, st1) = create (\<lambda>i. Bodies_rectangle i x y len paddleWidth False Paddle) st;
          (paddleToCircleConstraint, st2) =
             create (\<lambda>i. \<lparr>constraintId = i, pointA = (x, y), bodyB = ident paddle,
                          restLength = 0, stiffness = 0.7\<rparr>) st1
      in World_add_constraint paddleToCircleConstraint (World_add paddle st2))"

subsection \<open>The pendulum and its image\<close>

text \<open>\<open>addSwingingBall\<close> computes the rope length and starts loading the image; the
  body is built by the image's \<open>onload\<close> handler, which runs later, or not at all when
  the load fails and \<open>onerror\<close> runs instead. \<open>url\<close> is the result of
  \<open>URL.createObjectURL\<close>.\<close>

definition addSwingingBall :: "string \<Rightarrow> state \<Rightarrow> state" where
  "addSwingingBall url st =
     (let circleBottomOffset = 5;
          len = RenderHeight st - bottomBorderOffset - bottomBorderHeight / 2
                  - BIG_BALL_RADIUS - circleBottomOffset
      in st\<lparr>pendingImages := pendingImages st @ [\<lparr>constraintLength = len, src = url\<rparr>]\<rparr>)"

definition img_onload :: "pendingImage \<Rightarrow> state \<Rightarrow> state" where
  "img_onload img st =
     (let (ball, st1) =
             create (\<lambda>i. Bodies_circle i (RenderWidth st / 2)
                            (constraintLength img + BIG_BALL_RADIUS) BIG_BALL_RADIUS
                            False (Some (src img)) Pendulum) st;
          st2 = st1\<lparr>bigBall := Some (ident ball), bigBallId := ident ball\<rparr>;
          (rope, st3) =
             create (\<lambda>i. \<lparr>constraintId = i, pointA = bigBallAnchorPoint st2, bodyB = ident ball,
                          restLength = constraintLength img, stiffness = 1\<rparr>) st2
      in World_add_constraint rope (World_add ball st3))"

definition img_onerror :: "pendingImage \<Rightarrow> state \<Rightarrow> state" where
  "img_onerror img st = st\<lparr>console := console st @ [''Failed to load the SVG image:'']\<rparr>"

subsection \<open>Init, the Dimensions setter and the constructor\<close>

text \<open>\<open>Init\<close>; \<open>rnd\<close> is the value of \<open>Math.random()\<close>. (\<open>Render.setSize\<close> only resizes
  the drawing surface.)\<close>

definition Init :: "real \<Rightarrow> string \<Rightarrow> state \<Rightarrow> state" where
  "Init rnd url st0 =
     (let st = World_clear st0;
          w = RenderWidth st;
          h = RenderHeight st;
          (top, st1) = create (\<lambda>i. Bodies_rectangle i (w / 2) (-10) w 20 True Boundary) st;
          (bottom, st2) =
             create (\<lambda>i. Bodies_rectangle i (w / 2) (h - bottomBorderOffset) (w * 0.8)
                            bottomBorderHeight True Boundary) st1;
          st3 = fold World_add [top, bottom] st2;
          st4 =
            (if rnd \<le> 0.25 then createPegs 5 25 st3
             else if rnd \<le> 0.5 then createSlats st3
             else if rnd \<le> 0.75 then
               (let paddleDiam = 250;
                    rightPaddleWheelYPosition = (h - BIG_BALL_RADIUS * 2) / 2 - 100;
                    paddleDiamAdjust =
                      (if paddleDiam / 2 > rightPaddleWheelYPosition - 5
                       then paddleDiam / 2 - rightPaddleWheelYPosition + 5 else 0)
                in createPaddlewheel (w / 2 - paddleDiam / 2 + 10)
                     ((h - BIG_BALL_RADIUS * 2) / 2) 50 paddleDiam
                     (createPaddlewheel (w / 2 + paddleDiam / 2 - 10 - paddleDiamAdjust / 2)
                        rightPaddleWheelYPosition 20 (paddleDiam - paddleDiamAdjust * 2) st3))
             else
               (let paddleDiam = 220
                in createPaddle (w / 2 - paddleDiam / 2) ((h - BIG_BALL_RADIUS * 2) / 2) 220
                     (createPaddle (w / 2 + paddleDiam / 2) ((h - BIG_BALL_RADIUS * 2) / 2)
                        220 st3)))
      in addSwingingBall url st4)"

definition set_Dimensions :: "real \<Rightarrow> real \<Rightarrow> real \<Rightarrow> real \<Rightarrow> string \<Rightarrow> state \<Rightarrow> state" where
  "set_Dimensions t w h rnd url st =
     Init rnd url (st\<lparr>RenderWidth := w, RenderHeight := h, RenderTop := t\<rparr>)"

text \<open>
  The constructor, for a container of width \<open>w\<close>, height \<open>h\<close> and top \<open>t\<close>. The field
  initialisers run first; \<open>Engine.create\<close> builds the world composite, which takes the
  id \<open>n0\<close> the global counter stands at; \<open>_initializeRender\<close> reads the container's
  rectangle; the two handlers are registered and the runner and renderer started (from
  then on ticks and frames arrive as events); \<open>Init\<close> runs.
\<close>

definition fresh :: "nat \<Rightarrow> state" where
  "fresh n0 =
     \<lparr>RenderWidth = 0, RenderHeight = 0, RenderTop = 0, emojiCount = 0, bigBallId = 0,
      bigBall = None, emojiMap = Map.empty, sharedCanvas = None, swingDirection = -1,
      worldBodies = [], worldConstraints = [], heap = Map.empty, nextId = n0,
      pendingImages = [], console = [], rasterLog = []\<rparr>"

definition initializeEngineAndWorld :: "state \<Rightarrow> state" where
  "initializeEngineAndWorld st = snd (create (\<lambda>i. i) st)"

definition initializeRender :: "real \<Rightarrow> real \<Rightarrow> real \<Rightarrow> state \<Rightarrow> state" where
  "initializeRender w h t st = st\<lparr>RenderWidth := w, RenderHeight := h, RenderTop := t\<rparr>"

definition construct :: "real \<Rightarrow> real \<Rightarrow> real \<Rightarrow> nat \<Rightarrow> real \<Rightarrow> string \<Rightarrow> state" where
  "construct w h t n0 rnd url =
     Init rnd url (initializeRender w h t (initializeEngineAndWorld (fresh n0)))"

subsection \<open>Events\<close>

text \<open>
  Everything that happens to an instance after construction: the calls of the public
  methods, the engine's ticks, the rendered frames, and the completion or failure of a
  pending image load (\<open>k\<close> is its index among the pending loads; an index with no
  pending load is no event). The browser runs them one at a time.
\<close>

datatype event =
    CallCreateEmojiBall string real
  | CallClearAllEmojis
  | CallInit real string
  | SetDimensions real real real real string
  | Tick motion
  | Frame
  | ImageLoaded nat
  | ImageFailed nat

definition settle :: "(pendingImage \<Rightarrow> state \<Rightarrow> state) \<Rightarrow> nat \<Rightarrow> state \<Rightarrow> state" where
  "settle handler k st =
     (if k < length (pendingImages st)
      then handler (pendingImages st ! k)
             (st\<lparr>pendingImages := take k (pendingImages st) @ drop (Suc k) (pendingImages st)\<rparr>)
      else st)"

fun step :: "(canvas \<Rightarrow> string) \<Rightarrow> event \<Rightarrow> state \<Rightarrow> state" where
  "step toDataURL (CallCreateEmojiBall emoji rnd) st = snd (CreateEmojiBall toDataURL emoji rnd st)"
| "step toDataURL CallClearAllEmojis st = ClearAllEmojis st"
| "step toDataURL (CallInit rnd url) st = Init rnd url st"
| "step toDataURL (SetDimensions t w h rnd url) st = set_Dimensions t w h rnd url st"
| "step toDataURL (Tick mv) st = engineUpdate mv st"
| "step toDataURL Frame st = afterRender st"
| "step toDataURL (ImageLoaded k) st = settle img_onload k st"
| "step toDataURL (ImageFailed k) st = settle img_onerror k st"

definition run :: "(canvas \<Rightarrow> string) \<Rightarrow> event list \<Rightarrow> state \<Rightarrow> state" where
  "run toDataURL evs st = fold (step toDataURL) evs st"

text \<open>The events that are calls of \<open>CreateEmojiBall\<close>, and those that are such calls
  or come from the engine and the browser without a call of another method or a rendered
  frame.\<close>

fun isSpawn :: "event \<Rightarrow> bool" where
  "isSpawn (CallCreateEmojiBall emoji rnd) = True"
| "isSpawn ev = False"

fun spawnOrEngine :: "event \<Rightarrow> bool" where
  "spawnOrEngine (CallCreateEmojiBall emoji rnd) = True"
| "spawnOrEngine (Tick mv) = True"
| "spawnOrEngine (ImageLoaded k) = True"
| "spawnOrEngine (ImageFailed k) = True"
| "spawnOrEngine ev = False"

text \<open>The bodies of the world built by a given method.\<close>

definition madeBy :: "maker \<Rightarrow> state \<Rightarrow> body list" where
  "madeBy mk st = filter (\<lambda>b. maker b = mk) (allBodies st)"

subsection \<open>Well-formed worlds\<close>

text \<open>
  What every world built by this class satisfies, with \<open>n\<close> a bound on the ids handed
  out so far and \<open>big\<close> the value of \<open>_bigBallId\<close>: the world lists no body twice; every
  listed reference is below \<open>n\<close> and leads to an object carrying that id; the ids of a
  compound's parts are below \<open>n\<close> and are not bodies of the world themselves; an emoji
  ball is a single non-static circle whose id is not \<open>big\<close>; boundaries and obstacle
  bodies are not non-static circles at top level.
\<close>

definition okBody :: "nat \<Rightarrow> body \<Rightarrow> bool" where
  "okBody big b \<longleftrightarrow>
     (if maker b = EmojiBall
      then label b = ''Circle Body'' \<and> isStatic b = False \<and> children b = [] \<and> ident b \<noteq> big
      else if maker b = Pendulum then label b = ''Circle Body'' \<and> children b = []
      else (label b = ''Circle Body'' \<and> isStatic b = False) = False)"

definition wfW :: "nat \<Rightarrow> nat \<Rightarrow> nat list \<Rightarrow> (nat \<rightharpoonup> body) \<Rightarrow> bool" where
  "wfW n big ws hp \<longleftrightarrow>
     distinct ws \<and>
     (\<forall>r\<in>set ws. r < n \<and>
        (case hp r of
           None \<Rightarrow> False
         | Some b \<Rightarrow> ident b = r \<and> okBody big b \<and>
                      (\<forall>p\<in>set (children b). ident p < n \<and> ident p \<notin> set ws)))"

definition wfWorld :: "state \<Rightarrow> bool" where
  "wfWorld st \<longleftrightarrow>
     wfW (nextId st) (bigBallId st) (worldBodies st) (heap st) \<and> bigBallId st < nextId st"

text \<open>The accumulator of a loop that builds bodies from \<open>st\<close> on: the bodies made so
  far carry the ids handed out since, in order, have no parts of their own and
  satisfy \<open>P\<close>; the state differs from \<open>st\<close> in the id counter only.\<close>

definition builtFrom :: "(body \<Rightarrow> bool) \<Rightarrow> state \<Rightarrow> body list \<times> state \<Rightarrow> bool" where
  "builtFrom P st acc \<longleftrightarrow>
     (case acc of (bs, s) \<Rightarrow>
        s\<lparr>nextId := nextId st\<rparr> = st \<and> nextId st \<le> nextId s \<and>
        map ident bs = [nextId st..<nextId s] \<and>
        (\<forall>b\<in>set bs. P b \<and> children b = []))"

text \<open>The fields of an instance that creating and adding bodies and constraints does
  not touch are those \<open>mask\<close> keeps. \<open>grows m s s'\<close>: from \<open>s\<close> to \<open>s'\<close> only bodies
  made by \<open>m\<close> (and constraints) were added, with fresh ids, and a well-formed world
  stayed so.\<close>

definition mask :: "state \<Rightarrow> state" where
  "mask s = s\<lparr>worldBodies := [], worldConstraints := [], heap := Map.empty, nextId := 0\<rparr>"

definition grows :: "maker \<Rightarrow> state \<Rightarrow> state \<Rightarrow> bool" where
  "grows m s s' \<longleftrightarrow>
     mask s' = mask s \<and> nextId s \<le> nextId s' \<and>
     (wfWorld s \<longrightarrow>
        wfWorld s' \<and>
        (\<exists>new. allBodies s' = allBodies s @ new \<and>
               (\<forall>b\<in>set new. maker b = m \<and> nextId s \<le> ident b)))"

text \<open>The method that builds the obstacles for a given value of \<open>Math.random()\<close> in
  \<open>Init\<close>.\<close>

definition layoutOf :: "real \<Rightarrow> maker" where
  "layoutOf rnd =
     (if rnd \<le> 0.25 then Peg else if rnd \<le> 0.5 then Slat
      else if rnd \<le> 0.75 then Paddlewheel else Paddle)"

text \<open>The stages of \<open>Init\<close>, named for the proofs: the cleared world holding the two
  boundaries, and the layout built on it.\<close>

definition boundariesOf :: "state \<Rightarrow> body \<times> body" where
  "boundariesOf st =
     (Bodies_rectangle (nextId st) (RenderWidth st / 2) (-10) (RenderWidth st) 20 True Boundary,
      Bodies_rectangle (nextId st + 1) (RenderWidth st / 2) (RenderHeight st - bottomBorderOffset)
        (RenderWidth st * 0.8) bottomBorderHeight True Boundary)"

definition withBoundaries :: "state \<Rightarrow> state" where
  "withBoundaries st =
     st\<lparr>worldConstraints := [], nextId := nextId st + 2,
        worldBodies := [nextId st, nextId st + 1],
        heap := (heap st)(nextId st \<mapsto> fst (boundariesOf st),
                          nextId st + 1 \<mapsto> snd (boundariesOf st))\<rparr>"

definition layoutStage :: "real \<Rightarrow> state \<Rightarrow> state" where
  "layoutStage rnd st3 =
     (let w = RenderWidth st3; h = RenderHeight st3
      in if rnd \<le> 0.25 then createPegs 5 25 st3
         else if rnd \<le> 0.5 then createSlats st3
         else if rnd \<le> 0.75 then
           (let paddleDiam = 250;
                rightPaddleWheelYPosition = (h - BIG_BALL_RADIUS * 2) / 2 - 100;
                paddleDiamAdjust =
                  (if paddleDiam / 2 > rightPaddleWheelYPosition - 5
                   then paddleDiam / 2 - rightPaddleWheelYPosition + 5 else 0)
            in createPaddlewheel (w / 2 - paddleDiam / 2 + 10)
                 ((h - BIG_BALL_RADIUS * 2) / 2) 50 paddleDiam
                 (createPaddlewheel (w / 2 + paddleDiam / 2 - 10 - paddleDiamAdjust / 2)
                    rightPaddleWheelYPosition 20 (paddleDiam - paddleDiamAdjust * 2) st3))
         else
           (let paddleDiam = 220
            in createPaddle (w / 2 - paddleDiam / 2) ((h - BIG_BALL_RADIUS * 2) / 2) 220
                 (createPaddle (w / 2 + paddleDiam / 2) ((h - BIG_BALL_RADIUS * 2) / 2)
                    220 st3)))"

text \<open>All parts the two passes visit, in order; and two bodies that agree on what
  well-formedness looks at.\<close>

definition allParts :: "state \<Rightarrow> part list" where
  "allParts st = concat (map parts (allBodies st))"

definition sameShape :: "body \<Rightarrow> body \<Rightarrow> bool" where
  "sameShape b b' \<longleftrightarrow>
     ident b' = ident b \<and> label b' = label b \<and> isStatic b' = isStatic b \<and>
     maker b' = maker b \<and> map ident (children b') = map ident (children b)"

text \<open>
  The angle as the specification words it, for comparison with \<open>swingAngle\<close>: "the
  angle of the body relative to the anchor, measured from vertical", that is, the angle
  between the rope and the downward vertical through the anchor (0 when the body hangs
  straight down).
\<close>

definition spec_angleFromVertical :: "state \<Rightarrow> body \<Rightarrow> real" where
  "spec_angleFromVertical st b =
     atan2 (fst (position b) - fst (bigBallAnchorPoint st))
           (snd (position b) - snd (bigBallAnchorPoint st))"

subsection \<open>The layouts in closed form\<close>















text \<open>
  The shared canvas as \<open>createEmojiTexture\<close> leaves it when this class created it: 32 by
  32, with the text settings of the first use, cleared, and holding the one symbol drawn
  at its centre \<open>(width / 2, height / 2)\<close>.
\<close>

definition glyphCanvas :: "string \<Rightarrow> canvas" where
  "glyphCanvas e =
     \<lparr>canvasWidth = 32, canvasHeight = 32, font = ''28px sans-serif'', textAlign = ''center'',
      textBaseline = ''middle'', drawn = [(e, 16, 16)]\<rparr>"

section \<open>Properties\<close>

subsection \<open>Well-formedness is kept\<close>


lemma wfW_mono: "wfW n big ws hp \<Longrightarrow> n \<le> n' \<Longrightarrow> wfW n' big ws hp"
  unfolding wfW_def by (fastforce split: option.splits)

lemma wfW_empty: "wfW n big [] hp"
  by (simp add: wfW_def)

lemma wfW_add:
  assumes wf: "wfW n big ws hp"
    and i: "ident b = i" "n \<le> i" "i < n'"
    and ok: "okBody big b"
    and kids: "\<forall>p\<in>set (children b). n \<le> ident p \<and> ident p < n' \<and> ident p \<noteq> i"
  shows "wfW n' big (ws @ [i]) (hp(i \<mapsto> b))"
proof -
  have fresh: "i \<notin> set ws" using wf i unfolding wfW_def by auto
  have old: "\<forall>r\<in>set ws. r < n" using wf unfolding wfW_def by auto
  have "r < n' \<and> (case (hp(i \<mapsto> b)) r of None \<Rightarrow> False
          | Some b \<Rightarrow> ident b = r \<and> okBody big b \<and>
              (\<forall>p\<in>set (children b). ident p < n' \<and> ident p \<notin> set (ws @ [i])))"
    if r: "r \<in> set (ws @ [i])" for r
  proof (cases "r = i")
    case True
    then show ?thesis using i ok kids old by fastforce
  next
    case False
    then have "r \<in> set ws" using r by simp
    then show ?thesis using wf False i unfolding wfW_def
      by (fastforce split: option.splits)
  qed
  moreover have "distinct (ws @ [i])" using wf fresh by (simp add: wfW_def)
  ultimately show ?thesis unfolding wfW_def by blast
qed

lemma wfW_remove1: "wfW n big ws hp \<Longrightarrow> wfW n big (remove1 x ws) hp"
  unfolding wfW_def
  by (auto split: option.splits dest: notin_set_remove1)


lemma wfW_big:
  assumes "wfW n big ws hp" "n \<le> big'"
  shows "wfW n big' ws hp"
proof -
  have "r < n \<and> (case hp r of None \<Rightarrow> False
          | Some b \<Rightarrow> ident b = r \<and> okBody big' b \<and>
              (\<forall>p\<in>set (children b). ident p < n \<and> ident p \<notin> set ws))"
    if r: "r \<in> set ws" for r
  proof -
    obtain b where b: "hp r = Some b" "ident b = r" "okBody big b" "r < n"
      "\<forall>p\<in>set (children b). ident p < n \<and> ident p \<notin> set ws"
      using assms(1) r unfolding wfW_def by (fastforce split: option.splits)
    have "okBody big' b" using b assms(2) by (auto simp: okBody_def split: if_splits)
    then show ?thesis using b by simp
  qed
  moreover have "distinct ws" using assms by (simp add: wfW_def)
  ultimately show ?thesis unfolding wfW_def by blast
qed

text \<open>Two bodies that agree on what well-formedness looks at.\<close>

lemma okBody_similar:
  assumes "okBody big b" "ident b' = ident b" "label b' = label b" "isStatic b' = isStatic b"
    "maker b' = maker b" "map ident (children b') = map ident (children b)"
  shows "okBody big b'"
proof -
  have "children b = [] \<Longrightarrow> children b' = []" using assms(6) by simp
  then show ?thesis using assms by (auto simp: okBody_def split: if_splits)
qed

lemma wfW_similar:
  assumes wf: "wfW n big ws hp"
    and sim: "\<And>r b. r \<in> set ws \<Longrightarrow> hp r = Some b \<Longrightarrow>
       \<exists>b'. hp' r = Some b' \<and> ident b' = ident b \<and> label b' = label b \<and>
            isStatic b' = isStatic b \<and> maker b' = maker b \<and>
            map ident (children b') = map ident (children b)"
  shows "wfW n big ws hp'"
proof -
  have "r < n \<and> (case hp' r of None \<Rightarrow> False
          | Some b \<Rightarrow> ident b = r \<and> okBody big b \<and>
              (\<forall>p\<in>set (children b). ident p < n \<and> ident p \<notin> set ws))"
    if r: "r \<in> set ws" for r
  proof -
    obtain b where b: "hp r = Some b" "ident b = r" "okBody big b" "r < n"
      "\<forall>p\<in>set (children b). ident p < n \<and> ident p \<notin> set ws"
      using wf r unfolding wfW_def by (fastforce split: option.splits)
    from sim[OF r b(1)] obtain b' where b': "hp' r = Some b'" "ident b' = ident b"
      "label b' = label b" "isStatic b' = isStatic b" "maker b' = maker b"
      "map ident (children b') = map ident (children b)" by blast
    have ok: "okBody big b'" using okBody_similar[OF b(3) b'(2-6)] .
    have "ident ` set (children b') = ident ` set (children b)"
      using b'(6) by (metis set_map)
    then have kids: "\<forall>p\<in>set (children b'). ident p < n \<and> ident p \<notin> set ws"
      using b(5) by (metis (no_types, lifting) image_iff)
    show ?thesis using b b' ok kids by simp
  qed
  moreover have "distinct ws" using wf by (simp add: wfW_def)
  ultimately show ?thesis unfolding wfW_def by blast
qed

text \<open>The bodies of the world when a body is added or nothing the world lists changes.\<close>

lemma map_filter_add:
  "i \<notin> set ws \<Longrightarrow> List.map_filter (hp(i \<mapsto> b)) (ws @ [i]) = List.map_filter hp ws @ [b]"
  by (induction ws) (auto simp: List.map_filter_def)

lemma wfW_notin: "wfW n big ws hp \<Longrightarrow> n \<le> i \<Longrightarrow> i \<notin> set ws"
  unfolding wfW_def by auto


lemma mask_fields:
  assumes "mask s' = mask s"
  shows "RenderWidth s' = RenderWidth s" "RenderHeight s' = RenderHeight s"
    "RenderTop s' = RenderTop s" "emojiCount s' = emojiCount s" "bigBallId s' = bigBallId s"
    "bigBall s' = bigBall s" "emojiMap s' = emojiMap s" "sharedCanvas s' = sharedCanvas s"
    "swingDirection s' = swingDirection s" "pendingImages s' = pendingImages s"
    "console s' = console s" "rasterLog s' = rasterLog s"
  using assms[THEN arg_cong, of RenderWidth] assms[THEN arg_cong, of RenderHeight]
    assms[THEN arg_cong, of RenderTop] assms[THEN arg_cong, of emojiCount]
    assms[THEN arg_cong, of bigBallId] assms[THEN arg_cong, of bigBall]
    assms[THEN arg_cong, of emojiMap] assms[THEN arg_cong, of sharedCanvas]
    assms[THEN arg_cong, of swingDirection] assms[THEN arg_cong, of pendingImages]
    assms[THEN arg_cong, of console] assms[THEN arg_cong, of rasterLog]
  by (simp_all add: mask_def)

lemma grows_refl: "grows m s s"
  by (simp add: grows_def)

lemma grows_trans:
  assumes "grows m s s'" "grows m s' s''"
  shows "grows m s s''"
proof -
  have m: "mask s'' = mask s" using assms by (simp add: grows_def)
  have n: "nextId s \<le> nextId s''" using assms by (simp add: grows_def)
  have "wfWorld s'' \<and> (\<exists>new. allBodies s'' = allBodies s @ new \<and>
               (\<forall>b\<in>set new. maker b = m \<and> nextId s \<le> ident b))" if wf: "wfWorld s"
  proof -
    from assms(1) wf obtain new1 where 1: "wfWorld s'" "allBodies s' = allBodies s @ new1"
      "\<forall>b\<in>set new1. maker b = m \<and> nextId s \<le> ident b" unfolding grows_def by blast
    from assms(2) 1(1) obtain new2 where 2: "wfWorld s''" "allBodies s'' = allBodies s' @ new2"
      "\<forall>b\<in>set new2. maker b = m \<and> nextId s' \<le> ident b" unfolding grows_def by blast
    have le: "nextId s \<le> nextId s'" using assms(1) by (simp add: grows_def)
    have "allBodies s'' = allBodies s @ (new1 @ new2)" using 1 2 by simp
    moreover have "\<forall>b\<in>set (new1 @ new2). maker b = m \<and> nextId s \<le> ident b"
      using 1(3) 2(3) le by fastforce
    ultimately show ?thesis using 2(1) by blast
  qed
  then show ?thesis using m n unfolding grows_def by blast
qed

lemma grows_addI:
  assumes m: "mask s' = mask s"
    and n: "nextId s' = nextId s + d"
    and w: "worldBodies s' = worldBodies s @ [i]"
    and h: "heap s' = (heap s)(i \<mapsto> b)"
    and b: "ident b = i" "nextId s \<le> i" "i < nextId s + d" "maker b = mk"
    and ok: "\<And>big. big < nextId s \<Longrightarrow> okBody big b"
    and kids: "\<forall>p\<in>set (children b). nextId s \<le> ident p \<and> ident p < nextId s + d \<and> ident p \<noteq> i"
  shows "grows mk s s'"
proof -
  have big: "bigBallId s' = bigBallId s" using mask_fields(5)[OF m] .
  have "wfWorld s' \<and> (\<exists>new. allBodies s' = allBodies s @ new \<and>
               (\<forall>b\<in>set new. maker b = mk \<and> nextId s \<le> ident b))" if wf: "wfWorld s"
  proof -
    have wfw: "wfW (nextId s) (bigBallId s) (worldBodies s) (heap s)" and bb: "bigBallId s < nextId s"
      using wf by (simp_all add: wfWorld_def)
    have "wfW (nextId s + d) (bigBallId s) (worldBodies s @ [i]) ((heap s)(i \<mapsto> b))"
      using wfW_add[OF wfw b(1) b(2) b(3) ok[OF bb]] kids by blast
    then have 1: "wfWorld s'" using n w h big bb by (simp add: wfWorld_def)
    have "i \<notin> set (worldBodies s)" using wfW_notin[OF wfw b(2)] .
    then have "allBodies s' = allBodies s @ [b]"
      by (simp add: allBodies_def w h map_filter_add)
    then show ?thesis using 1 b by simp
  qed
  then show ?thesis using m n unfolding grows_def by simp
qed

lemma okBody_obstacle:
  "maker b = mk \<Longrightarrow> mk \<noteq> EmojiBall \<Longrightarrow> mk \<noteq> Pendulum \<Longrightarrow>
   label b \<noteq> ''Circle Body'' \<or> isStatic b \<Longrightarrow> okBody big b"
  by (auto simp: okBody_def)

lemma grows_createPaddle: "grows Paddle s (createPaddle x y len s)"
  by (rule grows_addI[where d = 2 and i = "nextId s"])
     (auto simp: createPaddle_def create_def World_add_def World_add_constraint_def
        Bodies_rectangle_def mask_def Let_def okBody_def)

lemma upt4: "[0..<4] = [0, 1, 2, 3]"
  by code_simp

lemma grows_createPaddlewheel: "grows Paddlewheel s (createPaddlewheel x y r len s)"
  by (rule grows_addI[where d = 7 and i = "nextId s + 5"])
     (auto simp: createPaddlewheel_def create_def World_add_def World_add_constraint_def
        Bodies_rectangle_def Bodies_circle_def Body_create_def Body_setAngle_def paddleStep_def
        mask_def Let_def okBody_def upt4 part.truncate_def)


lemma fold_invariant:
  "I a \<Longrightarrow> (\<And>x a. I a \<Longrightarrow> I (f x a)) \<Longrightarrow> I (fold f xs a)"
  by (induction xs arbitrary: a) auto

lemma builtFrom_start: "builtFrom P st ([], st)"
  by (simp add: builtFrom_def)

lemma builtFrom_create:
  assumes "builtFrom P st (bs, s)" "P (mk (nextId s))" "children (mk (nextId s)) = []"
    "ident (mk (nextId s)) = nextId s"
  shows "builtFrom P st (bs @ [mk (nextId s)], s\<lparr>nextId := nextId s + 1\<rparr>)"
  using assms by (auto simp: builtFrom_def)

lemma pegStep_builtFrom:
  assumes "builtFrom (\<lambda>b. maker b = Peg \<and> isStatic b) st acc"
  shows "builtFrom (\<lambda>b. maker b = Peg \<and> isStatic b) st (pegStep radius spacing sx sy row col acc)"
proof (cases acc)
  case (Pair bs s)
  then show ?thesis
    using assms
    by (simp add: builtFrom_def pegStep_def create_def Let_def Bodies_circle_def)
qed

lemma slatStep_builtFrom:
  assumes "builtFrom (\<lambda>b. maker b = Slat \<and> isStatic b) st acc"
  shows "builtFrom (\<lambda>b. maker b = Slat \<and> isStatic b) st (slatStep w h c i acc)"
proof (cases acc)
  case (Pair bs s)
  then show ?thesis
    using assms
    by (simp add: builtFrom_def slatStep_def create_def Let_def Bodies_rectangle_def
        Body_translate_def Body_rotate_def)
qed

lemma fold_World_add:
  "fold World_add bs s =
     s\<lparr>worldBodies := worldBodies s @ map ident bs,
       heap := fold (\<lambda>b h. h(ident b \<mapsto> b)) bs (heap s)\<rparr>"
  by (induction bs arbitrary: s) (simp_all add: World_add_def)

lemma wfW_addList:
  assumes "wfW n big ws hp" "map ident bs = [n..<n']" "n \<le> n'"
    "\<forall>b\<in>set bs. okBody big b \<and> children b = []"
  shows "wfW n' big (ws @ map ident bs) (fold (\<lambda>b h. h(ident b \<mapsto> b)) bs hp) \<and>
         List.map_filter (fold (\<lambda>b h. h(ident b \<mapsto> b)) bs hp) (ws @ map ident bs)
           = List.map_filter hp ws @ bs"
  using assms
proof (induction bs arbitrary: n ws hp)
  case Nil
  then show ?case using wfW_mono by simp
next
  case (Cons b bs)
  have "[n..<n'] = ident b # map ident bs" using Cons.prems(2) by simp
  then have lt: "n < n'" and ib: "ident b = n" and rest: "map ident bs = [Suc n..<n']"
    by (auto simp: upt_eq_Cons_conv)
  have okb: "okBody big b" and nokids: "children b = []" using Cons.prems(4) by auto
  have wf1: "wfW (Suc n) big (ws @ [n]) (hp(n \<mapsto> b))"
    using wfW_add[OF Cons.prems(1) ib, of "Suc n"] okb nokids by simp
  have fresh: "n \<notin> set ws" using wfW_notin[OF Cons.prems(1)] by simp
  have IH: "wfW n' big ((ws @ [n]) @ map ident bs) (fold (\<lambda>b h. h(ident b \<mapsto> b)) bs (hp(n \<mapsto> b))) \<and>
      List.map_filter (fold (\<lambda>b h. h(ident b \<mapsto> b)) bs (hp(n \<mapsto> b))) ((ws @ [n]) @ map ident bs)
        = List.map_filter (hp(n \<mapsto> b)) (ws @ [n]) @ bs"
  proof -
    have le: "Suc n \<le> n'" using lt by simp
    have rest_ok: "\<forall>b\<in>set bs. okBody big b \<and> children b = []" using Cons.prems(4) by simp
    show ?thesis by (rule Cons.IH[OF wf1 rest le rest_ok])
  qed
  have mf: "List.map_filter (hp(n \<mapsto> b)) (ws @ [n]) = List.map_filter hp ws @ [b]"
    using fresh by (rule map_filter_add)
  have l: "ws @ map ident (b # bs) = (ws @ [n]) @ map ident bs" using ib by simp
  have f: "fold (\<lambda>b h. h(ident b \<mapsto> b)) (b # bs) hp = fold (\<lambda>b h. h(ident b \<mapsto> b)) bs (hp(n \<mapsto> b))"
    using ib by simp
  show ?case unfolding l f using IH mf by simp
qed

lemma builtFrom_fields:
  assumes "builtFrom P st (bs, s)"
  shows "worldBodies s = worldBodies st" "heap s = heap st" "bigBallId s = bigBallId st"
    "mask s = mask st"
proof -
  have eq: "s\<lparr>nextId := nextId st\<rparr> = st" using assms by (simp add: builtFrom_def)
  show "worldBodies s = worldBodies st" using eq[THEN arg_cong, of worldBodies] by simp
  show "heap s = heap st" using eq[THEN arg_cong, of heap] by simp
  show "bigBallId s = bigBallId st" using eq[THEN arg_cong, of bigBallId] by simp
  show "mask s = mask st" using eq[THEN arg_cong, of mask] by (simp add: mask_def)
qed

lemma grows_addList:
  assumes built: "builtFrom (\<lambda>b. maker b = mk \<and> isStatic b) s (bs, s1)"
    and mk: "mk \<noteq> EmojiBall" "mk \<noteq> Pendulum"
  shows "grows mk s (fold World_add bs s1)"
proof -
  let ?s' = "fold World_add bs s1"
  note f = builtFrom_fields[OF built]
  have ids: "map ident bs = [nextId s..<nextId s1]" and le: "nextId s \<le> nextId s1"
    and P: "\<forall>b\<in>set bs. (maker b = mk \<and> isStatic b) \<and> children b = []"
    using built by (simp_all add: builtFrom_def)
  have m: "mask ?s' = mask s" using f(4) by (simp add: fold_World_add mask_def)
  have n: "nextId ?s' = nextId s1" by (simp add: fold_World_add)
  have "wfWorld ?s' \<and> (\<exists>new. allBodies ?s' = allBodies s @ new \<and>
               (\<forall>b\<in>set new. maker b = mk \<and> nextId s \<le> ident b))" if wf: "wfWorld s"
  proof -
    have wfw: "wfW (nextId s) (bigBallId s) (worldBodies s) (heap s)" and bb: "bigBallId s < nextId s"
      using wf by (simp_all add: wfWorld_def)
    have ok: "\<forall>b\<in>set bs. okBody (bigBallId s) b \<and> children b = []"
      using P mk by (auto simp: okBody_def)
    note r = wfW_addList[OF wfw ids le ok]
    have 1: "wfWorld ?s'" using r f bb le by (simp add: wfWorld_def fold_World_add)
    have 2: "allBodies ?s' = allBodies s @ bs" using r f by (simp add: allBodies_def fold_World_add)
    have "\<forall>b\<in>set bs. nextId s \<le> ident b"
    proof
      fix b assume "b \<in> set bs"
      then have "ident b \<in> set (map ident bs)" by simp
      then show "nextId s \<le> ident b" unfolding ids by simp
    qed
    then show ?thesis using 1 2 P by blast
  qed
  then show ?thesis using m n le unfolding grows_def by simp
qed

lemma grows_createPegs: "grows Peg s (createPegs radius spacing s)"
proof -
  define sx where "sx = RenderWidth s / 2 - (real_of_int (round (RenderHeight s / 33.33)) - 1) * spacing / 2"
  define sy where "sy = (RenderHeight s - BIG_BALL_RADIUS * 2) / 2
                     - (real_of_int (round (RenderHeight s / 75)) - 1) * spacing / 2"
  define acc where "acc = fold (\<lambda>row. fold (pegStep radius spacing sx sy row) [0..<nat (round (RenderHeight s / 33.33))])
                  [0..<nat (round (RenderHeight s / 75))] ([], s)"
  have "builtFrom (\<lambda>b. maker b = Peg \<and> isStatic b) s acc"
    unfolding acc_def
  proof (rule fold_invariant[where I = "builtFrom (\<lambda>b. maker b = Peg \<and> isStatic b) s"])
    show "builtFrom (\<lambda>b. maker b = Peg \<and> isStatic b) s ([], s)" by (rule builtFrom_start)
  next
    fix row a assume a: "builtFrom (\<lambda>b. maker b = Peg \<and> isStatic b) s a"
    show "builtFrom (\<lambda>b. maker b = Peg \<and> isStatic b) s
            (fold (pegStep radius spacing sx sy row) [0..<nat (round (RenderHeight s / 33.33))] a)"
      by (rule fold_invariant[where I = "builtFrom (\<lambda>b. maker b = Peg \<and> isStatic b) s"])
         (auto intro: a pegStep_builtFrom)
  qed
  then have "grows Peg s (fold World_add (fst acc) (snd acc))"
    using grows_addList[of Peg s "fst acc" "snd acc"] by simp
  moreover have "createPegs radius spacing s = fold World_add (fst acc) (snd acc)"
    by (simp add: createPegs_def Let_def acc_def sx_def sy_def case_prod_beta)
  ultimately show ?thesis by simp
qed

lemma grows_createSlats: "grows Slat s (createSlats s)"
proof -
  define acc where "acc = fold (slatStep (RenderWidth s) (RenderHeight s) (round (RenderHeight s / 150)))
                  [0..<nat (round (RenderHeight s / 150))] ([], s)"
  have "builtFrom (\<lambda>b. maker b = Slat \<and> isStatic b) s acc"
    unfolding acc_def
    by (rule fold_invariant[where I = "builtFrom (\<lambda>b. maker b = Slat \<and> isStatic b) s"])
       (auto intro: builtFrom_start slatStep_builtFrom)
  then have "grows Slat s (fold World_add (fst acc) (snd acc))"
    using grows_addList[of Slat s "fst acc" "snd acc"] by simp
  moreover have "createSlats s = fold World_add (fst acc) (snd acc)"
    by (simp add: createSlats_def Let_def acc_def case_prod_beta)
  ultimately show ?thesis by simp
qed


lemma grows_layoutStage: "grows (layoutOf rnd) s (layoutStage rnd s)"
  using grows_createPegs grows_createSlats
    grows_trans[OF grows_createPaddlewheel grows_createPaddlewheel]
    grows_trans[OF grows_createPaddle grows_createPaddle]
  by (simp add: layoutOf_def layoutStage_def Let_def)

lemma ident_Bodies [simp]:
  "ident (Bodies_rectangle i x y w h static mk) = i"
  "ident (Bodies_circle i x y r static tex mk) = i"
  by (simp_all add: Bodies_rectangle_def Bodies_circle_def)

lemma Init_eq: "Init rnd url st = addSwingingBall url (layoutStage rnd (withBoundaries st))"
  by (simp add: Init_def layoutStage_def withBoundaries_def boundariesOf_def Let_def create_def
      World_clear_def World_add_def)


lemma withBoundaries_world:
  assumes "bigBallId st < nextId st"
  shows "wfWorld (withBoundaries st)"
    and "allBodies (withBoundaries st) = [fst (boundariesOf st), snd (boundariesOf st)]"
  using assms
  by (simp_all add: wfWorld_def wfW_def withBoundaries_def boundariesOf_def okBody_def
      allBodies_def List.map_filter_def Bodies_rectangle_def)

lemma withBoundaries_mask: "mask (withBoundaries st) = mask st"
  by (simp add: mask_def withBoundaries_def)

lemma addSwingingBall_world [simp]:
  "wfWorld (addSwingingBall url s) = wfWorld s"
  "allBodies (addSwingingBall url s) = allBodies s"
  "nextId (addSwingingBall url s) = nextId s"
  "worldBodies (addSwingingBall url s) = worldBodies s"
  by (simp_all add: addSwingingBall_def wfWorld_def allBodies_def Let_def)

lemma Init_world:
  assumes big: "bigBallId st < nextId st"
  shows "wfWorld (Init rnd url st) \<and>
         (\<exists>new. allBodies (Init rnd url st) = fst (boundariesOf st) # snd (boundariesOf st) # new \<and>
                (\<forall>b\<in>set new. maker b = layoutOf rnd \<and> nextId st + 2 \<le> ident b))"
proof -
  note wb = withBoundaries_world[OF big]
  have n: "nextId (withBoundaries st) = nextId st + 2" by (simp add: withBoundaries_def)
  from grows_layoutStage[of rnd "withBoundaries st"] wb(1)
  obtain new where "wfWorld (layoutStage rnd (withBoundaries st))"
    "allBodies (layoutStage rnd (withBoundaries st)) = allBodies (withBoundaries st) @ new"
    "\<forall>b\<in>set new. maker b = layoutOf rnd \<and> nextId (withBoundaries st) \<le> ident b"
    unfolding grows_def by blast
  then show ?thesis using wb(2) n by (simp add: Init_eq)
qed

lemma Init_frame:
  "RenderWidth (Init rnd url st) = RenderWidth st"
  "RenderHeight (Init rnd url st) = RenderHeight st"
  "RenderTop (Init rnd url st) = RenderTop st"
  "emojiCount (Init rnd url st) = emojiCount st"
  "bigBallId (Init rnd url st) = bigBallId st"
  "bigBall (Init rnd url st) = bigBall st"
  "emojiMap (Init rnd url st) = emojiMap st"
  "sharedCanvas (Init rnd url st) = sharedCanvas st"
  "swingDirection (Init rnd url st) = swingDirection st"
  "console (Init rnd url st) = console st"
  "rasterLog (Init rnd url st) = rasterLog st"
proof -
  have "mask (layoutStage rnd (withBoundaries st)) = mask st"
    using grows_layoutStage[of rnd "withBoundaries st"] withBoundaries_mask
    by (simp add: grows_def)
  note f = mask_fields[OF this]
  show "RenderWidth (Init rnd url st) = RenderWidth st"
    "RenderHeight (Init rnd url st) = RenderHeight st"
    "RenderTop (Init rnd url st) = RenderTop st"
    "emojiCount (Init rnd url st) = emojiCount st"
    "bigBallId (Init rnd url st) = bigBallId st"
    "bigBall (Init rnd url st) = bigBall st"
    "emojiMap (Init rnd url st) = emojiMap st"
    "sharedCanvas (Init rnd url st) = sharedCanvas st"
    "swingDirection (Init rnd url st) = swingDirection st"
    "console (Init rnd url st) = console st"
    "rasterLog (Init rnd url st) = rasterLog st"
    using f by (simp_all add: Init_eq addSwingingBall_def Let_def)
qed


lemma Init_nextId: "nextId st + 2 \<le> nextId (Init rnd url st)"
  using grows_layoutStage[of rnd "withBoundaries st"]
  by (simp add: Init_eq grows_def withBoundaries_def)

lemma wfWorld_Init: "wfWorld st \<Longrightarrow> wfWorld (Init rnd url st)"
  using Init_world[of st rnd url] by (simp add: wfWorld_def)

lemma wfWorld_construct: "wfWorld (construct w h t n0 rnd url)"
  unfolding construct_def
  by (rule Init_world[THEN conjunct1])
     (simp add: initializeRender_def initializeEngineAndWorld_def create_def fresh_def)

text \<open>Spawning.\<close>

lemma getEmojiTexture_fields [simp]:
  "RenderWidth (snd (getEmojiTexture enc e st)) = RenderWidth st"
  "RenderHeight (snd (getEmojiTexture enc e st)) = RenderHeight st"
  "RenderTop (snd (getEmojiTexture enc e st)) = RenderTop st"
  "emojiCount (snd (getEmojiTexture enc e st)) = emojiCount st"
  "bigBallId (snd (getEmojiTexture enc e st)) = bigBallId st"
  "bigBall (snd (getEmojiTexture enc e st)) = bigBall st"
  "swingDirection (snd (getEmojiTexture enc e st)) = swingDirection st"
  "worldBodies (snd (getEmojiTexture enc e st)) = worldBodies st"
  "worldConstraints (snd (getEmojiTexture enc e st)) = worldConstraints st"
  "heap (snd (getEmojiTexture enc e st)) = heap st"
  "nextId (snd (getEmojiTexture enc e st)) = nextId st"
  "pendingImages (snd (getEmojiTexture enc e st)) = pendingImages st"
  "console (snd (getEmojiTexture enc e st)) = console st"
  by (cases "emojiMap st e"; simp add: getEmojiTexture_def createEmojiTexture_def Let_def)+

lemma CreateEmojiBall_full:
  assumes "emojiCount st \<ge> MAX_EMOJIS"
  shows "CreateEmojiBall enc e rnd st =
           (None, st\<lparr>console := console st @ [''Max emoji count exceeded...'']\<rparr>)"
  using assms by (simp add: CreateEmojiBall_def)

lemma CreateEmojiBall_room:
  fixes enc :: "canvas \<Rightarrow> string" and e :: string and rnd :: real and st :: state
  assumes "emojiCount st < MAX_EMOJIS"
  defines "r \<equiv> CreateEmojiBall enc e rnd st"
  shows "\<exists>b. fst r = Some b \<and> heap (snd r) = (heap st)(nextId st \<mapsto> b) \<and>
           ident b = nextId st \<and> maker b = EmojiBall \<and> label b = ''Circle Body'' \<and>
           isStatic b = False \<and> children b = [] \<and>
           position b = (RenderWidth st / 2 + (rnd * 2 - 1) * RenderWidth st / 50, 0)"
    and "worldBodies (snd r) = worldBodies st @ [nextId st]"
    and "nextId (snd r) = nextId st + 1"
    and "emojiCount (snd r) = emojiCount st + 1"
    and "bigBallId (snd r) = bigBallId st"
    and "bigBall (snd r) = bigBall st"
    and "swingDirection (snd r) = swingDirection st"
    and "RenderWidth (snd r) = RenderWidth st"
    and "RenderHeight (snd r) = RenderHeight st"
    and "pendingImages (snd r) = pendingImages st"
    and "console (snd r) = console st"
  using assms(1) unfolding r_def
  by (simp_all add: CreateEmojiBall_def Let_def case_prod_beta create_def World_add_def
      Bodies_circle_def)

lemma wfWorld_CreateEmojiBall:
  assumes "wfWorld st"
  shows "wfWorld (snd (CreateEmojiBall enc e rnd st))"
proof (cases "emojiCount st < MAX_EMOJIS")
  case True
  note r = CreateEmojiBall_room[OF True, of enc e rnd]
  from r(1) obtain b where b: "heap (snd (CreateEmojiBall enc e rnd st)) = (heap st)(nextId st \<mapsto> b)"
    "ident b = nextId st" "maker b = EmojiBall" "label b = ''Circle Body''" "isStatic b = False"
    "children b = []" by blast
  have wfw: "wfW (nextId st) (bigBallId st) (worldBodies st) (heap st)" and bb: "bigBallId st < nextId st"
    using assms by (simp_all add: wfWorld_def)
  have ok: "okBody (bigBallId st) b" using b bb by (simp add: okBody_def)
  have "wfW (nextId st + 1) (bigBallId st) (worldBodies st @ [nextId st]) ((heap st)(nextId st \<mapsto> b))"
    using wfW_add[OF wfw b(2) _ _ ok] b(6) by simp
  then show ?thesis using r(2-5) b(1) bb by (simp add: wfWorld_def)
next
  case False
  then show ?thesis using assms by (simp add: CreateEmojiBall_full wfWorld_def)
qed


text \<open>The two passes over the world.\<close>

lemma isEmoji_frame [simp]:
  "isEmoji (s\<lparr>worldBodies := w, emojiCount := c\<rparr>) p = isEmoji s p"
  "outOfBounds (s\<lparr>worldBodies := w, emojiCount := c\<rparr>) p = outOfBounds s p"
  by (simp_all add: isEmoji_def outOfBounds_def)

lemma fold_cleanupPart:
  "fold cleanupPart ps s =
     s\<lparr>worldBodies := fold remove1 (map ident (filter (\<lambda>p. isEmoji s p \<and> outOfBounds s p) ps))
                         (worldBodies s),
       emojiCount := emojiCount s - int (length (filter (\<lambda>p. isEmoji s p \<and> outOfBounds s p) ps))\<rparr>"
proof (induction ps arbitrary: s)
  case Nil
  show ?case by simp
next
  case (Cons p ps)
  show ?case
  proof (cases "isEmoji s p \<and> outOfBounds s p")
    case True
    then have "cleanupPart p s =
        s\<lparr>worldBodies := remove1 (ident p) (worldBodies s), emojiCount := emojiCount s - 1\<rparr>"
      by (simp add: cleanupPart_def World_remove_def Let_def)
    then show ?thesis using True by (simp add: Cons.IH)
  next
    case False
    then have "cleanupPart p s = s" by (auto simp: cleanupPart_def)
    moreover have "filter (\<lambda>p. isEmoji s p \<and> outOfBounds s p) (p # ps)
        = filter (\<lambda>p. isEmoji s p \<and> outOfBounds s p) ps" using False by auto
    ultimately show ?thesis by (simp add: Cons.IH del: filter.simps)
  qed
qed

lemma fold_clearPart:
  "fold clearPart ps s =
     s\<lparr>worldBodies := fold remove1 (map ident (filter (isEmoji s) ps)) (worldBodies s),
       emojiCount := emojiCount s - int (length (filter (isEmoji s) ps))\<rparr>"
proof (induction ps arbitrary: s)
  case Nil
  show ?case by simp
next
  case (Cons p ps)
  show ?case
  proof (cases "isEmoji s p")
    case True
    then have "clearPart p s =
        s\<lparr>worldBodies := remove1 (ident p) (worldBodies s), emojiCount := emojiCount s - 1\<rparr>"
      by (simp add: clearPart_def World_remove_def Let_def)
    then show ?thesis using True by (simp add: Cons.IH)
  next
    case False
    then have "clearPart p s = s" by (auto simp: clearPart_def)
    then show ?thesis using False by (simp add: Cons.IH)
  qed
qed

lemma fold_parts: "fold (\<lambda>compound. fold f (parts compound)) bs s = fold f (concat (map parts bs)) s"
  by (induction bs arbitrary: s) simp_all

lemma afterRender_eq:
  "afterRender st =
     st\<lparr>worldBodies :=
          fold remove1 (map ident (filter (\<lambda>p. isEmoji st p \<and> outOfBounds st p) (allParts st)))
               (worldBodies st),
        emojiCount :=
          emojiCount st - int (length (filter (\<lambda>p. isEmoji st p \<and> outOfBounds st p) (allParts st)))\<rparr>"
  by (simp add: afterRender_def fold_parts fold_cleanupPart allParts_def)

lemma ClearAllEmojis_eq:
  "ClearAllEmojis st =
     st\<lparr>worldBodies := fold remove1 (map ident (filter (isEmoji st) (allParts st))) (worldBodies st),
        emojiCount := emojiCount st - int (length (filter (isEmoji st) (allParts st)))\<rparr>"
  by (simp add: ClearAllEmojis_def fold_parts fold_clearPart allParts_def)

lemma wfW_fold_remove1: "wfW n big ws hp \<Longrightarrow> wfW n big (fold remove1 xs ws) hp"
  by (induction xs arbitrary: ws) (simp_all add: wfW_remove1)

lemma set_fold_remove1: "distinct ws \<Longrightarrow> set (fold remove1 xs ws) = set ws - set xs"
  by (induction xs arbitrary: ws) auto

lemma wfWorld_afterRender: "wfWorld st \<Longrightarrow> wfWorld (afterRender st)"
  by (simp add: afterRender_eq wfWorld_def wfW_fold_remove1)

lemma wfWorld_ClearAllEmojis: "wfWorld st \<Longrightarrow> wfWorld (ClearAllEmojis st)"
  by (simp add: ClearAllEmojis_eq wfWorld_def wfW_fold_remove1)


text \<open>Ticks.\<close>

lemma wfWorld_sameShape:
  assumes "wfWorld st" "worldBodies st' = worldBodies st" "nextId st' = nextId st"
    "bigBallId st' = bigBallId st"
    "\<And>r b. heap st r = Some b \<Longrightarrow> \<exists>b'. heap st' r = Some b' \<and> sameShape b b'"
  shows "wfWorld st'"
proof -
  have wfw: "wfW (nextId st) (bigBallId st) (worldBodies st) (heap st)"
    using assms(1) by (simp add: wfWorld_def)
  have "wfW (nextId st) (bigBallId st) (worldBodies st) (heap st')"
  proof (rule wfW_similar[OF wfw])
    fix r b assume "r \<in> set (worldBodies st)" "heap st r = Some b"
    from assms(5)[OF this(2)] obtain b' where "heap st' r = Some b'" "sameShape b b'" by blast
    then show "\<exists>b'. heap st' r = Some b' \<and> ident b' = ident b \<and> label b' = label b \<and>
            isStatic b' = isStatic b \<and> maker b' = maker b \<and>
            map ident (children b') = map ident (children b)"
      unfolding sameShape_def by blast
  qed
  then show ?thesis using assms by (simp add: wfWorld_def)
qed

lemma Body_applyForce_fields [simp]:
  "worldBodies (Body_applyForce r pos f st) = worldBodies st"
  "nextId (Body_applyForce r pos f st) = nextId st"
  "bigBallId (Body_applyForce r pos f st) = bigBallId st"
  "swingDirection (Body_applyForce r pos f st) = swingDirection st"
  "emojiCount (Body_applyForce r pos f st) = emojiCount st"
  "emojiMap (Body_applyForce r pos f st) = emojiMap st"
  by (simp_all add: Body_applyForce_def split: option.splits)

lemma Body_applyForce_heap:
  "heap st r' = Some b \<Longrightarrow> \<exists>b'. heap (Body_applyForce r pos f st) r' = Some b' \<and> sameShape b b'"
  by (auto simp: Body_applyForce_def sameShape_def split: option.splits)

lemma beforeUpdate_fields [simp]:
  "worldBodies (beforeUpdate st) = worldBodies st"
  "nextId (beforeUpdate st) = nextId st"
  "bigBallId (beforeUpdate st) = bigBallId st"
  "emojiCount (beforeUpdate st) = emojiCount st"
  "emojiMap (beforeUpdate st) = emojiMap st"
  by (simp_all add: beforeUpdate_def Let_def split: option.splits)

lemma beforeUpdate_form:
  "beforeUpdate st = st \<or> (\<exists>d. beforeUpdate st = st\<lparr>swingDirection := d\<rparr>) \<or>
   (\<exists>q pos f. beforeUpdate st = Body_applyForce q pos f st) \<or>
   (\<exists>q pos f d. beforeUpdate st = Body_applyForce q pos f (st\<lparr>swingDirection := d\<rparr>))"
proof (cases "bigBall st")
  case None
  then show ?thesis by (simp add: beforeUpdate_def)
next
  case (Some q)
  show ?thesis
  proof (cases "heap st q")
    case None
    then show ?thesis using Some by (simp add: beforeUpdate_def)
  next
    case (Some bb)
    define st1 where "st1 = (if \<bar>swingAngle st bb\<bar> > pi * 0.7 \<and> swingDirection st = -1
                           then st\<lparr>swingDirection := 1\<rparr>
                           else if \<bar>swingAngle st bb\<bar> < pi * 0.3 \<and> swingDirection st = 1
                           then st\<lparr>swingDirection := -1\<rparr>
                           else st)"
    have st1: "st1 = st \<or> (\<exists>d. st1 = st\<lparr>swingDirection := d\<rparr>)"
      unfolding st1_def by (cases "\<bar>swingAngle st bb\<bar> > pi * 0.7 \<and> swingDirection st = -1";
          cases "\<bar>swingAngle st bb\<bar> < pi * 0.3 \<and> swingDirection st = 1") (simp_all, blast+)
    have eq: "beforeUpdate st =
        (if (swingDirection st1 = 1 \<and> \<bar>swingAngle st bb\<bar> < pi / 2) \<or>
            (swingDirection st1 = -1 \<and> \<bar>swingAngle st bb\<bar> > pi / 2)
         then Body_applyForce q (position bb) (real_of_int (swingDirection st1) * swingForce, 0) st1
         else st1)"
      unfolding st1_def using \<open>bigBall st = Some q\<close> Some
      by (simp add: beforeUpdate_def Let_def)
    have "beforeUpdate st = st1 \<or> (\<exists>pos f. beforeUpdate st = Body_applyForce q pos f st1)"
    proof (cases "(swingDirection st1 = 1 \<and> \<bar>swingAngle st bb\<bar> < pi / 2) \<or>
            (swingDirection st1 = -1 \<and> \<bar>swingAngle st bb\<bar> > pi / 2)")
      case True
      then have "beforeUpdate st =
          Body_applyForce q (position bb) (real_of_int (swingDirection st1) * swingForce, 0) st1"
        by (simp only: eq if_True)
      then show ?thesis by blast
    next
      case False
      then have "beforeUpdate st = st1" by (simp only: eq if_False)
      then show ?thesis by blast
    qed
    then show ?thesis using st1 by metis
  qed
qed

lemma beforeUpdate_heap:
  assumes "heap st r = Some b"
  shows "\<exists>b'. heap (beforeUpdate st) r = Some b' \<and> sameShape b b'"
proof -
  have refl: "sameShape b b" by (simp add: sameShape_def)
  have a: "\<exists>b'. heap (Body_applyForce q pos f (st\<lparr>swingDirection := d\<rparr>)) r = Some b' \<and> sameShape b b'"
    for q pos f d
    using Body_applyForce_heap[of "st\<lparr>swingDirection := d\<rparr>" r b q pos f] assms by simp
  have b: "\<exists>b'. heap (Body_applyForce q pos f st) r = Some b' \<and> sameShape b b'" for q pos f
    using Body_applyForce_heap[of st r b q pos f] assms by simp
  from beforeUpdate_form[of st] show ?thesis
  proof (elim disjE exE)
    assume "beforeUpdate st = st"
    then show ?thesis using assms refl by simp
  next
    fix d assume "beforeUpdate st = st\<lparr>swingDirection := d\<rparr>"
    then show ?thesis using assms refl by simp
  next
    fix q pos f assume "beforeUpdate st = Body_applyForce q pos f st"
    then show ?thesis using b by simp
  next
    fix q pos f d assume "beforeUpdate st = Body_applyForce q pos f (st\<lparr>swingDirection := d\<rparr>)"
    then show ?thesis using a by simp
  qed
qed

lemma sameShape_trans: "sameShape a b \<Longrightarrow> sameShape b c \<Longrightarrow> sameShape a c"
  by (simp add: sameShape_def)

lemma sameShape_moveBody: "sameShape b (moveBody mv b)"
  by (simp add: sameShape_def moveBody_def movePart_def comp_def)

lemma engineUpdate_fields [simp]:
  "worldBodies (engineUpdate mv st) = worldBodies st"
  "nextId (engineUpdate mv st) = nextId st"
  "bigBallId (engineUpdate mv st) = bigBallId st"
  "emojiCount (engineUpdate mv st) = emojiCount st"
  "emojiMap (engineUpdate mv st) = emojiMap st"
  by (simp_all add: engineUpdate_def Let_def)

lemma engineUpdate_heap:
  "heap (engineUpdate mv st) r =
     (if r \<in> set (worldBodies st) then map_option (moveBody mv) (heap (beforeUpdate st) r)
      else heap (beforeUpdate st) r)"
  by (simp add: engineUpdate_def Let_def)

lemma wfWorld_engineUpdate:
  assumes "wfWorld st"
  shows "wfWorld (engineUpdate mv st)"
proof (rule wfWorld_sameShape[OF assms])
  fix r b assume "heap st r = Some b"
  then obtain b1 where b1: "heap (beforeUpdate st) r = Some b1" "sameShape b b1"
    using beforeUpdate_heap by blast
  have b2: "sameShape b (moveBody mv b1)" using sameShape_trans[OF b1(2) sameShape_moveBody] .
  show "\<exists>b'. heap (engineUpdate mv st) r = Some b' \<and> sameShape b b'"
  proof (cases "r \<in> set (worldBodies st)")
    case True
    then have "heap (engineUpdate mv st) r = Some (moveBody mv b1)"
      by (simp add: engineUpdate_heap b1(1))
    then show ?thesis using b2 by simp
  next
    case False
    then have "heap (engineUpdate mv st) r = Some b1" by (simp add: engineUpdate_heap b1(1))
    then show ?thesis using b1(2) by simp
  qed
qed simp_all

text \<open>Image loads.\<close>

lemma img_onload_fields:
  "worldBodies (img_onload img st) = worldBodies st @ [nextId st]"
  "nextId (img_onload img st) = nextId st + 2"
  "bigBallId (img_onload img st) = nextId st"
  "bigBall (img_onload img st) = Some (nextId st)"
  "heap (img_onload img st) = (heap st)(nextId st \<mapsto>
     Bodies_circle (nextId st) (RenderWidth st / 2) (constraintLength img + BIG_BALL_RADIUS)
       BIG_BALL_RADIUS False (Some (src img)) Pendulum)"
  "emojiCount (img_onload img st) = emojiCount st"
  "emojiMap (img_onload img st) = emojiMap st"
  "swingDirection (img_onload img st) = swingDirection st"
  "pendingImages (img_onload img st) = pendingImages st"
  "console (img_onload img st) = console st"
  by (simp_all add: img_onload_def create_def Let_def World_add_def World_add_constraint_def)

lemma wfWorld_img_onload:
  assumes "wfWorld st"
  shows "wfWorld (img_onload img st)"
proof -
  have wfw: "wfW (nextId st) (bigBallId st) (worldBodies st) (heap st)"
    using assms by (simp add: wfWorld_def)
  have "wfW (nextId st) (nextId st) (worldBodies st) (heap st)"
    by (rule wfW_big[OF wfw]) simp
  then have "wfW (nextId st + 2) (nextId st) (worldBodies st @ [nextId st])
      ((heap st)(nextId st \<mapsto> Bodies_circle (nextId st) (RenderWidth st / 2)
        (constraintLength img + BIG_BALL_RADIUS) BIG_BALL_RADIUS False (Some (src img)) Pendulum))"
    by (rule wfW_add) (simp_all add: okBody_def Bodies_circle_def)
  then show ?thesis by (simp add: wfWorld_def img_onload_fields)
qed

lemma wfWorld_pending [simp]: "wfWorld (st\<lparr>pendingImages := ps\<rparr>) = wfWorld st"
  by (simp add: wfWorld_def)

lemma wfWorld_settle_onload: "wfWorld st \<Longrightarrow> wfWorld (settle img_onload k st)"
  by (simp add: settle_def wfWorld_img_onload)

lemma wfWorld_settle_onerror: "wfWorld st \<Longrightarrow> wfWorld (settle img_onerror k st)"
  by (simp add: settle_def img_onerror_def wfWorld_def)

lemma wfWorld_set_Dimensions: "wfWorld st \<Longrightarrow> wfWorld (set_Dimensions t w h rnd url st)"
  unfolding set_Dimensions_def by (rule wfWorld_Init) (simp add: wfWorld_def)

lemma wfWorld_step: "wfWorld st \<Longrightarrow> wfWorld (step enc ev st)"
  by (cases ev)
     (simp_all add: wfWorld_CreateEmojiBall wfWorld_ClearAllEmojis wfWorld_Init
        wfWorld_set_Dimensions wfWorld_engineUpdate wfWorld_afterRender wfWorld_settle_onload
        wfWorld_settle_onerror)

lemma wfWorld_run: "wfWorld st \<Longrightarrow> wfWorld (run enc evs st)"
  unfolding run_def by (induction evs arbitrary: st) (simp_all add: wfWorld_step)

lemma wfWorld_reachable: "wfWorld (run enc evs (construct w h t n0 rnd url))"
  by (rule wfWorld_run[OF wfWorld_construct])


text \<open>Counting the emoji balls of the world.\<close>

lemma madeBy_CreateEmojiBall:
  assumes wf: "wfWorld st"
  shows "length (madeBy EmojiBall (snd (CreateEmojiBall enc e rnd st))) =
           length (madeBy EmojiBall st) + (if emojiCount st < MAX_EMOJIS then 1 else 0)"
    and "emojiCount (snd (CreateEmojiBall enc e rnd st)) =
           emojiCount st + (if emojiCount st < MAX_EMOJIS then 1 else 0)"
proof -
  have fresh: "nextId st \<notin> set (worldBodies st)"
  proof (rule wfW_notin[of "nextId st" "bigBallId st" _ "heap st"])
    show "wfW (nextId st) (bigBallId st) (worldBodies st) (heap st)"
      using wf by (simp add: wfWorld_def)
  qed simp
  show "length (madeBy EmojiBall (snd (CreateEmojiBall enc e rnd st))) =
           length (madeBy EmojiBall st) + (if emojiCount st < MAX_EMOJIS then 1 else 0)"
  proof (cases "emojiCount st < MAX_EMOJIS")
    case True
    note r = CreateEmojiBall_room[OF True, of enc e rnd]
    from r(1) obtain b where b: "heap (snd (CreateEmojiBall enc e rnd st)) = (heap st)(nextId st \<mapsto> b)"
      "maker b = EmojiBall" by blast
    have "allBodies (snd (CreateEmojiBall enc e rnd st)) = allBodies st @ [b]"
      using fresh by (simp add: allBodies_def r(2) b(1) map_filter_add)
    then show ?thesis using True b(2) by (simp add: madeBy_def)
  next
    case False
    then show ?thesis by (simp add: CreateEmojiBall_full madeBy_def allBodies_def)
  qed
  show "emojiCount (snd (CreateEmojiBall enc e rnd st)) =
           emojiCount st + (if emojiCount st < MAX_EMOJIS then 1 else 0)"
  proof (cases "emojiCount st < MAX_EMOJIS")
    case True
    then show ?thesis using CreateEmojiBall_room(4)[OF True, of enc e rnd] by simp
  next
    case False
    then show ?thesis by (simp add: CreateEmojiBall_full)
  qed
qed

lemma creates_count:
  assumes "wfWorld s"
  shows "length (madeBy EmojiBall (run enc (map (\<lambda>c. CallCreateEmojiBall (fst c) (snd c)) calls) s)) =
           length (madeBy EmojiBall s) + min (length calls) (nat (MAX_EMOJIS - emojiCount s)) \<and>
         emojiCount (run enc (map (\<lambda>c. CallCreateEmojiBall (fst c) (snd c)) calls) s) =
           emojiCount s + int (min (length calls) (nat (MAX_EMOJIS - emojiCount s)))"
  using assms
proof (induction calls arbitrary: s)
  case Nil
  show ?case by (simp add: run_def)
next
  case (Cons c calls)
  let ?s1 = "snd (CreateEmojiBall enc (fst c) (snd c) s)"
  have wf1: "wfWorld ?s1" using Cons.prems by (rule wfWorld_CreateEmojiBall)
  note IH = Cons.IH[OF wf1]
  note one = madeBy_CreateEmojiBall[OF Cons.prems, of enc "fst c" "snd c"]
  have run: "run enc (map (\<lambda>c. CallCreateEmojiBall (fst c) (snd c)) (c # calls)) s =
             run enc (map (\<lambda>c. CallCreateEmojiBall (fst c) (snd c)) calls) ?s1"
    by (simp add: run_def)
  show ?case
  proof (cases "emojiCount s < MAX_EMOJIS")
    case True
    then show ?thesis unfolding run using IH one by (simp add: min_def) linarith
  next
    case False
    then show ?thesis unfolding run using IH one by simp
  qed
qed

subsection \<open>The world after Init\<close>


lemma layoutOf_cases: "layoutOf rnd \<in> {Peg, Slat, Paddlewheel, Paddle}"
  by (simp add: layoutOf_def)

lemma madeBy_Init:
  assumes "bigBallId st < nextId st"
  shows "madeBy EmojiBall (Init rnd url st) = []"
    and "madeBy Pendulum (Init rnd url st) = []"
    and "madeBy Boundary (Init rnd url st) = [fst (boundariesOf st), snd (boundariesOf st)]"
proof -
  from Init_world[OF assms, of rnd url] obtain new where
    new: "allBodies (Init rnd url st) = fst (boundariesOf st) # snd (boundariesOf st) # new"
      "\<forall>b\<in>set new. maker b = layoutOf rnd" by blast
  have b: "maker (fst (boundariesOf st)) = Boundary" "maker (snd (boundariesOf st)) = Boundary"
    by (simp_all add: boundariesOf_def Bodies_rectangle_def)
  have l: "layoutOf rnd \<noteq> EmojiBall" "layoutOf rnd \<noteq> Pendulum" "layoutOf rnd \<noteq> Boundary"
    using layoutOf_cases[of rnd] by auto
  have none: "filter (\<lambda>b. maker b = m) new = []" if "layoutOf rnd \<noteq> m" for m
    using new(2) that by (auto simp: filter_empty_conv)
  show "madeBy EmojiBall (Init rnd url st) = []"
    using none[OF l(1)] b by (simp add: madeBy_def new(1))
  show "madeBy Pendulum (Init rnd url st) = []"
    using none[OF l(2)] b by (simp add: madeBy_def new(1))
  show "madeBy Boundary (Init rnd url st) = [fst (boundariesOf st), snd (boundariesOf st)]"
    using none[OF l(3)] b by (simp add: madeBy_def new(1))
qed

lemma construct_start:
  "madeBy EmojiBall (construct w h t n0 rnd url) = []"
  "emojiCount (construct w h t n0 rnd url) = 0"
  unfolding construct_def
  by (simp_all add: madeBy_Init Init_frame initializeRender_def initializeEngineAndWorld_def
      create_def fresh_def)

subsection \<open>What Init does to the counter, and two drifts of the counter\<close>


text \<open>
  C10. In every reachable state, \<open>Init\<close> (and so the \<open>Dimensions\<close> setter) leaves
  \<open>_emojiCount\<close> as it was while no emoji ball is left in the world. The slots the
  counter still holds are lost: of any number of \<open>CreateEmojiBall\<close> calls that follow,
  only \<open>MAX_EMOJIS - _emojiCount\<close> add a ball, and every call after those is rejected,
  whatever the number of balls alive.
\<close>

theorem init_keeps_counter:
  fixes toDataURL :: "canvas \<Rightarrow> string"
  defines "creates \<equiv> map (\<lambda>c. CallCreateEmojiBall (fst c) (snd c))"
  shows
  "emojiCount (Init rnd' url' (run toDataURL evs (construct w h t n0 rnd url)))
     = emojiCount (run toDataURL evs (construct w h t n0 rnd url)) \<and>
   madeBy EmojiBall (Init rnd' url' (run toDataURL evs (construct w h t n0 rnd url))) = [] \<and>
   emojiCount (set_Dimensions t' w' h' rnd' url' (run toDataURL evs (construct w h t n0 rnd url)))
     = emojiCount (run toDataURL evs (construct w h t n0 rnd url)) \<and>
   madeBy EmojiBall
     (set_Dimensions t' w' h' rnd' url' (run toDataURL evs (construct w h t n0 rnd url))) = [] \<and>
   length (madeBy EmojiBall
      (run toDataURL (creates calls)
         (Init rnd' url' (run toDataURL evs (construct w h t n0 rnd url)))))
     = min (length calls)
         (nat (MAX_EMOJIS - emojiCount (run toDataURL evs (construct w h t n0 rnd url)))) \<and>
   (nat (MAX_EMOJIS - emojiCount (run toDataURL evs (construct w h t n0 rnd url))) \<le> length calls
      \<longrightarrow> fst (CreateEmojiBall toDataURL emoji r
             (run toDataURL (creates calls)
                (Init rnd' url' (run toDataURL evs (construct w h t n0 rnd url))))) = None)"
proof -
  let ?st = "run toDataURL evs (construct w h t n0 rnd url)"
  have wf: "wfWorld ?st" by (rule wfWorld_reachable)
  then have big: "bigBallId ?st < nextId ?st" by (simp add: wfWorld_def)
  have big': "bigBallId (?st\<lparr>RenderWidth := w', RenderHeight := h', RenderTop := t'\<rparr>)
      < nextId (?st\<lparr>RenderWidth := w', RenderHeight := h', RenderTop := t'\<rparr>)"
    using big by simp
  have wfI: "wfWorld (Init rnd' url' ?st)" using wf by (rule wfWorld_Init)
  note c = creates_count[OF wfI, of toDataURL calls]
  have 1: "emojiCount (Init rnd' url' ?st) = emojiCount ?st" by (rule Init_frame)
  have 2: "madeBy EmojiBall (Init rnd' url' ?st) = []" using big by (rule madeBy_Init)
  have 3: "emojiCount (set_Dimensions t' w' h' rnd' url' ?st) = emojiCount ?st"
    by (simp add: set_Dimensions_def Init_frame)
  have 4: "madeBy EmojiBall (set_Dimensions t' w' h' rnd' url' ?st) = []"
    unfolding set_Dimensions_def using big' by (rule madeBy_Init)
  have 5: "length (madeBy EmojiBall (run toDataURL (creates calls) (Init rnd' url' ?st)))
     = min (length calls) (nat (MAX_EMOJIS - emojiCount ?st))"
    using c by (simp add: creates_def 1 2)
  have 6: "fst (CreateEmojiBall toDataURL emoji r
             (run toDataURL (creates calls) (Init rnd' url' ?st))) = None"
    if "nat (MAX_EMOJIS - emojiCount ?st) \<le> length calls"
  proof -
    have "emojiCount (run toDataURL (creates calls) (Init rnd' url' ?st))
        = emojiCount ?st + int (nat (MAX_EMOJIS - emojiCount ?st))"
      using c that by (simp add: creates_def 1 min_def)
    then have "MAX_EMOJIS \<le> emojiCount (run toDataURL (creates calls) (Init rnd' url' ?st))"
      by linarith
    then show ?thesis by (simp add: CreateEmojiBall_full)
  qed
  show ?thesis using 1 2 3 4 5 6 by blast
qed

theorem init_keeps_counter_witness:
  "nat (MAX_EMOJIS - emojiCount
      (run (\<lambda>c. '''') (map (\<lambda>c. CallCreateEmojiBall (fst c) (snd c)) (replicate 1000 (''x'', 1 / 2)))
         (construct 1000 600 0 0 (9 / 10) ''u''))) \<le> length ([] :: (string \<times> real) list) \<and>
   madeBy EmojiBall (Init (9 / 10) ''v''
      (run (\<lambda>c. '''') (map (\<lambda>c. CallCreateEmojiBall (fst c) (snd c)) (replicate 1000 (''x'', 1 / 2)))
         (construct 1000 600 0 0 (9 / 10) ''u''))) = [] \<and>
   fst (CreateEmojiBall (\<lambda>c. '''') ''x'' (1 / 2) (Init (9 / 10) ''v''
      (run (\<lambda>c. '''') (map (\<lambda>c. CallCreateEmojiBall (fst c) (snd c)) (replicate 1000 (''x'', 1 / 2)))
         (construct 1000 600 0 0 (9 / 10) ''u'')))) = None"
proof -
  let ?evs = "map (\<lambda>c. CallCreateEmojiBall (fst c) (snd c)) (replicate 1000 (''x'', 1 / 2))"
  let ?st = "run (\<lambda>c. '''') ?evs (construct 1000 600 0 0 (9 / 10) ''u'')"
  have cnt: "emojiCount ?st = 1000"
    using creates_count[OF wfWorld_construct, of "\<lambda>c. ''''" "replicate 1000 (''x'', 1 / 2)"
        1000 600 0 0 "9 / 10" "''u''"]
    by (simp add: construct_start MAX_EMOJIS_def)
  then have h: "nat (MAX_EMOJIS - emojiCount ?st) \<le> length ([] :: (string \<times> real) list)"
    by (simp add: MAX_EMOJIS_def)
  note t = init_keeps_counter[of "9 / 10" "''v''" "\<lambda>c. ''''" ?evs 1000 600 0 0 "9 / 10" "''u''"
      _ _ _ "[]" "''x''" "1 / 2"]
  show ?thesis using t h by (simp add: run_def)
qed

text \<open>
  C2, at a failing input. A container of 1000 by 600 and \<open>Math.random() = 0.6\<close> in
  \<open>Init\<close> give the two paddlewheels. Each wheel's central circle is a part labelled
  \<open>Circle Body\<close>, not static, and not the pendulum, so \<open>ClearAllEmojis\<close> counts it as an
  emoji: \<open>World.remove\<close> finds no such body in the world and removes nothing, and the
  counter is decremented all the same. With no emoji ball in the world the counter
  reads -2.
\<close>

theorem counter_drifts_on_clear:
  "emojiCount (ClearAllEmojis (construct 1000 600 0 0 (6 / 10) ''u'')) = - 2 \<and>
   madeBy EmojiBall (ClearAllEmojis (construct 1000 600 0 0 (6 / 10) ''u'')) = [] \<and>
   worldBodies (ClearAllEmojis (construct 1000 600 0 0 (6 / 10) ''u''))
     = worldBodies (construct 1000 600 0 0 (6 / 10) ''u'')"
  by (simp add: construct_def Init_def fresh_def initializeEngineAndWorld_def initializeRender_def
      create_def World_clear_def World_add_def World_add_constraint_def Bodies_rectangle_def
      Bodies_circle_def Body_create_def createPaddlewheel_def paddleStep_def Body_setAngle_def
      addSwingingBall_def BIG_BALL_RADIUS_def bottomBorderHeight_def bottomBorderOffset_def
      Let_def upt4 ClearAllEmojis_def allBodies_def List.map_filter_def parts_def clearPart_def
      isEmoji_def World_remove_def part.truncate_def madeBy_def)

text \<open>
  C3, at a failing input. In the same world one emoji ball is spawned and
  \<open>ClearAllEmojis\<close> is called: the counter goes from 1 to -2, below the lower bound.
\<close>

theorem counter_below_zero:
  "emojiCount (run (\<lambda>c. '''') [CallCreateEmojiBall ''x'' (1 / 2), CallClearAllEmojis]
      (construct 1000 600 0 0 (6 / 10) ''u'')) = - 2"
  by (simp add: run_def construct_def Init_def fresh_def initializeEngineAndWorld_def
      initializeRender_def
      create_def World_clear_def World_add_def World_add_constraint_def Bodies_rectangle_def
      Bodies_circle_def Body_create_def createPaddlewheel_def paddleStep_def Body_setAngle_def
      addSwingingBall_def BIG_BALL_RADIUS_def bottomBorderHeight_def bottomBorderOffset_def
      Let_def upt4 ClearAllEmojis_def allBodies_def List.map_filter_def parts_def clearPart_def
      isEmoji_def World_remove_def part.truncate_def CreateEmojiBall_def getEmojiTexture_def
      createEmojiTexture_def MAX_EMOJIS_def)

subsection \<open>The cleanup pass\<close>


lemma set_map_filter: "set (List.map_filter f xs) = {y. \<exists>x\<in>set xs. f x = Some y}"
  by (induction xs) (auto simp: List.map_filter_simps split: option.splits)

lemma allBodies_mem:
  "b \<in> set (allBodies st) \<longleftrightarrow> (\<exists>r\<in>set (worldBodies st). heap st r = Some b)"
  by (simp add: allBodies_def set_map_filter)

lemma allParts_mem:
  "p \<in> set (allParts st) \<longleftrightarrow>
     (\<exists>b\<in>set (allBodies st). p = part.truncate b \<or> p \<in> set (children b))"
  by (auto simp: allParts_def parts_def)

lemma wfWorld_lookup:
  assumes "wfWorld st" "r \<in> set (worldBodies st)"
  obtains b where "heap st r = Some b" "ident b = r" "okBody (bigBallId st) b"
    "\<forall>p\<in>set (children b). ident p \<notin> set (worldBodies st)"
  using assms unfolding wfWorld_def wfW_def by (fastforce split: option.splits)

lemma ident_truncate [simp]: "ident (part.truncate b) = ident b"
  by (simp add: part.truncate_def)

lemma part_of_listed_body:
  assumes wf: "wfWorld st" and p: "p \<in> set (allParts st)" and r: "ident p \<in> set (worldBodies st)"
    and b: "heap st (ident p) = Some b"
  shows "p = part.truncate b"
proof -
  from p obtain b' where b': "b' \<in> set (allBodies st)" "p = part.truncate b' \<or> p \<in> set (children b')"
    unfolding allParts_mem by blast
  then obtain r' where r': "r' \<in> set (worldBodies st)" "heap st r' = Some b'"
    unfolding allBodies_mem by blast
  from wfWorld_lookup[OF wf r'(1)] r'(2)
  have id: "ident b' = r'" and kids: "\<forall>q\<in>set (children b'). ident q \<notin> set (worldBodies st)"
    by auto
  from b'(2) show ?thesis
  proof
    assume t: "p = part.truncate b'"
    then have "ident p = r'" using id by simp
    then show ?thesis using r'(2) b t by simp
  next
    assume "p \<in> set (children b')"
    then show ?thesis using kids r by blast
  qed
qed

lemma afterRender_keeps:
  assumes wf: "wfWorld st" and r: "r \<in> set (worldBodies st)" and b: "heap st r = Some b"
  shows "r \<in> set (worldBodies (afterRender st)) \<longleftrightarrow>
           \<not> (isEmoji st (part.truncate b) \<and> outOfBounds st (part.truncate b))"
proof -
  let ?hit = "\<lambda>p. isEmoji st p \<and> outOfBounds st p"
  have d: "distinct (worldBodies st)" using wf by (simp add: wfWorld_def wfW_def)
  have idb: "ident b = r" using wfWorld_lookup[OF wf r] b by auto
  have "b \<in> set (allBodies st)" using r b allBodies_mem by blast
  then have self: "part.truncate b \<in> set (allParts st)"
    using allParts_mem by blast
  have "r \<in> set (worldBodies (afterRender st)) \<longleftrightarrow> r \<notin> ident ` set (filter ?hit (allParts st))"
    using r by (simp add: afterRender_eq set_fold_remove1[OF d])
  also have "\<dots> \<longleftrightarrow> \<not> ?hit (part.truncate b)"
  proof
    assume "r \<notin> ident ` set (filter ?hit (allParts st))"
    then show "\<not> ?hit (part.truncate b)" using self idb by force
  next
    assume n: "\<not> ?hit (part.truncate b)"
    show "r \<notin> ident ` set (filter ?hit (allParts st))"
    proof
      assume "r \<in> ident ` set (filter ?hit (allParts st))"
      then obtain p where p: "p \<in> set (allParts st)" "?hit p" "ident p = r" by auto
      have "p = part.truncate b"
        using part_of_listed_body[OF wf p(1)] r b p(3) by simp
      then show False using n p(2) by simp
    qed
  qed
  finally show ?thesis .
qed

lemma isEmoji_truncate:
  "isEmoji st (part.truncate b) \<longleftrightarrow>
     label b = ''Circle Body'' \<and> isStatic b = False \<and> ident b \<noteq> bigBallId st"
  by (simp add: isEmoji_def part.truncate_def)

lemma outOfBounds_truncate:
  "outOfBounds st (part.truncate b) \<longleftrightarrow>
     snd (position b) > RenderHeight st \<or> fst (position b) < 0 \<or> fst (position b) > RenderWidth st"
  by (simp add: outOfBounds_def part.truncate_def case_prod_beta)

text \<open>
  What the cleanup pass does in every reachable state, for every body of the world: it
  removes an emoji ball exactly when its position has \<open>y > RenderHeight\<close>, \<open>x < 0\<close> or
  \<open>x > RenderWidth\<close>, and keeps it otherwise; it keeps every boundary and every
  obstacle body, and the body \<open>_bigBallId\<close> names, wherever they are. The pass adds no
  body to the world and changes no body. A pendulum body that \<open>_bigBallId\<close> does not
  name is not covered: see below.
\<close>

lemma cleanup_pass:
  fixes toDataURL :: "canvas \<Rightarrow> string" and evs :: "event list"
    and w h t rnd :: real and n0 :: nat and url :: string
  defines "st \<equiv> run toDataURL evs (construct w h t n0 rnd url)"
  assumes r: "r \<in> set (worldBodies st)" and b: "heap st r = Some b"
  shows
  "(maker b = EmojiBall \<longrightarrow>
      (r \<in> set (worldBodies (afterRender st)) \<longleftrightarrow>
         \<not> (snd (position b) > RenderHeight st \<or> fst (position b) < 0 \<or>
            fst (position b) > RenderWidth st))) \<and>
   (maker b \<in> {Boundary, Peg, Slat, Paddlewheel, Paddle} \<longrightarrow>
      r \<in> set (worldBodies (afterRender st))) \<and>
   (r = bigBallId st \<longrightarrow> r \<in> set (worldBodies (afterRender st))) \<and>
   set (worldBodies (afterRender st)) \<subseteq> set (worldBodies st) \<and>
   heap (afterRender st) = heap st"
proof -
  have wf: "wfWorld st" unfolding st_def by (rule wfWorld_reachable)
  from wfWorld_lookup[OF wf r] b have idb: "ident b = r" and ok: "okBody (bigBallId st) b"
    by auto
  note k = afterRender_keeps[OF wf r b]
  have d: "distinct (worldBodies st)" using wf by (simp add: wfWorld_def wfW_def)
  have 1: "r \<in> set (worldBodies (afterRender st)) \<longleftrightarrow>
         \<not> (snd (position b) > RenderHeight st \<or> fst (position b) < 0 \<or>
            fst (position b) > RenderWidth st)" if "maker b = EmojiBall"
    using that ok idb unfolding k isEmoji_truncate outOfBounds_truncate
    by (simp add: okBody_def)
  have 2: "r \<in> set (worldBodies (afterRender st))"
    if "maker b \<in> {Boundary, Peg, Slat, Paddlewheel, Paddle}"
    using that ok unfolding k isEmoji_truncate by (auto simp: okBody_def)
  have 3: "r \<in> set (worldBodies (afterRender st))" if "r = bigBallId st"
    using that idb unfolding k isEmoji_truncate by simp
  have 4: "set (worldBodies (afterRender st)) \<subseteq> set (worldBodies st)"
    by (simp add: afterRender_eq set_fold_remove1[OF d])
  have 5: "heap (afterRender st) = heap st" by (simp add: afterRender_eq)
  show ?thesis using 1 2 3 4 5 by blast
qed


lemmas build_defs =
  construct_def Init_def fresh_def initializeEngineAndWorld_def initializeRender_def
  create_def World_clear_def World_add_def World_add_constraint_def Bodies_rectangle_def
  Bodies_circle_def Body_create_def createPaddlewheel_def createPaddle_def paddleStep_def
  Body_setAngle_def addSwingingBall_def BIG_BALL_RADIUS_def bottomBorderHeight_def
  bottomBorderOffset_def Let_def upt4

lemmas event_defs =
  run_def settle_def img_onload_def img_onerror_def bigBallAnchorPoint_def
  CreateEmojiBall_def getEmojiTexture_def createEmojiTexture_def MAX_EMOJIS_def
  engineUpdate_def beforeUpdate_def swingAngle_def atan2_def Body_applyForce_def swingForce_def
  moveBody_def movePart_def set_Dimensions_def

lemma pi_half_cmp [simp]:
  "\<not> pi * (7 / 10) < \<bar>pi / 2\<bar>" "\<not> \<bar>pi / 2\<bar> < pi * (3 / 10)"
  "\<not> pi / 2 < \<bar>pi / 2\<bar>" "\<not> \<bar>pi / 2\<bar> < pi / 2"
  using pi_gt_zero by (simp_all add: abs_if)

lemma cleanup_pass_example:
  "9 \<in> set (worldBodies
      (run (\<lambda>c. '''') [ImageLoaded 0, CallCreateEmojiBall ''x'' (1 / 2), Tick (\<lambda>i. if i = 9 then ((- 5, 300), 0) else if i = 7 then ((500, 515), 0)
           else if i = 3 then ((610, 250), 0) else ((390, 250), 0))]
         (construct 1000 600 0 0 (9 / 10) ''u''))) \<and>
   (\<exists>b. heap (run (\<lambda>c. '''')
              [ImageLoaded 0, CallCreateEmojiBall ''x'' (1 / 2), Tick (\<lambda>i. if i = 9 then ((- 5, 300), 0) else if i = 7 then ((500, 515), 0)
           else if i = 3 then ((610, 250), 0) else ((390, 250), 0))]
              (construct 1000 600 0 0 (9 / 10) ''u'')) 9 = Some b \<and>
        maker b = EmojiBall \<and> fst (position b) < 0) \<and>
   9 \<notin> set (worldBodies (afterRender
      (run (\<lambda>c. '''') [ImageLoaded 0, CallCreateEmojiBall ''x'' (1 / 2), Tick (\<lambda>i. if i = 9 then ((- 5, 300), 0) else if i = 7 then ((500, 515), 0)
           else if i = 3 then ((610, 250), 0) else ((390, 250), 0))]
         (construct 1000 600 0 0 (9 / 10) ''u'')))) \<and>
   bigBallId (run (\<lambda>c. '''')
      [ImageLoaded 0, CallCreateEmojiBall ''x'' (1 / 2), Tick (\<lambda>i. if i = 9 then ((- 5, 300), 0) else if i = 7 then ((500, 515), 0)
           else if i = 3 then ((610, 250), 0) else ((390, 250), 0))]
      (construct 1000 600 0 0 (9 / 10) ''u'')) = 7 \<and>
   7 \<in> set (worldBodies (afterRender
      (run (\<lambda>c. '''') [ImageLoaded 0, CallCreateEmojiBall ''x'' (1 / 2), Tick (\<lambda>i. if i = 9 then ((- 5, 300), 0) else if i = 7 then ((500, 515), 0)
           else if i = 3 then ((610, 250), 0) else ((390, 250), 0))]
         (construct 1000 600 0 0 (9 / 10) ''u''))))"
proof -
  let ?S = "run (\<lambda>c. '''')
      [ImageLoaded 0, CallCreateEmojiBall ''x'' (1 / 2), Tick (\<lambda>i. if i = 9 then ((- 5, 300), 0) else if i = 7 then ((500, 515), 0)
           else if i = 3 then ((610, 250), 0) else ((390, 250), 0))]
      (construct 1000 600 0 0 (9 / 10) ''u'')"
  have ws: "worldBodies ?S = [1, 2, 3, 5, 7, 9]"
    by (simp add: build_defs event_defs)
  have big: "bigBallId ?S = 7"
    by (simp add: build_defs event_defs)
  have h9: "heap ?S 9 = Some
      \<lparr>ident = 9, label = ''Circle Body'', isStatic = False, position = (- 5, 300), angle = 0,
       force = (0, 0), torque = 0, shape = Circle 10, texture = Some '''', maker = EmojiBall,
       children = []\<rparr>"
    by (simp add: build_defs event_defs)
  have h7: "heap ?S 7 = Some
      \<lparr>ident = 7, label = ''Circle Body'', isStatic = False, position = (500, 515), angle = 0,
       force = (0, 0), torque = 0, shape = Circle 50, texture = Some ''u'', maker = Pendulum,
       children = []\<rparr>"
    by (simp add: build_defs event_defs)
  have r9: "9 \<in> set (worldBodies ?S)" and r7: "7 \<in> set (worldBodies ?S)" by (simp_all add: ws)
  have rw: "RenderWidth ?S = 1000" "RenderHeight ?S = 600"
    by (simp_all add: build_defs event_defs)
  from cleanup_pass[OF r9 h9] have "9 \<notin> set (worldBodies (afterRender ?S))"
    by (simp add: rw)
  moreover from cleanup_pass[OF r7 h7] have "7 \<in> set (worldBodies (afterRender ?S))"
    by (simp add: big)
  ultimately show ?thesis using r9 h9 big by simp
qed

text \<open>
  C4, at a failing input. The instance is constructed in a container of 1000 by 600;
  the container is resized to 400 by 300 before the image of the pendulum has loaded,
  so that \<open>Init\<close> runs again and starts a second load; then both loads complete. Each
  \<open>onload\<close> handler adds a pendulum body, the first with the rope length it captured
  for the height 600, so at (200, 565), and \<open>_bigBallId\<close> names the second. The first
  pendulum (id 13) is a non-static \<open>Circle Body\<close> whose id is not \<open>_bigBallId\<close> and its
  \<open>y\<close> exceeds the height 300: the cleanup pass of the next frame removes it from the
  world and decrements the counter of emoji balls, which reads -1.
\<close>

theorem pendulum_removed_by_cleanup:
  "worldBodies (run (\<lambda>c. '''') [SetDimensions 0 400 300 (9 / 10) ''v'', ImageLoaded 0, ImageLoaded 0]
      (construct 1000 600 0 0 (9 / 10) ''u'')) = [7, 8, 9, 11, 13, 15] \<and>
   map_option maker (heap (run (\<lambda>c. '''') [SetDimensions 0 400 300 (9 / 10) ''v'', ImageLoaded 0, ImageLoaded 0]
      (construct 1000 600 0 0 (9 / 10) ''u'')) 13) = Some Pendulum \<and>
   map_option position (heap (run (\<lambda>c. '''') [SetDimensions 0 400 300 (9 / 10) ''v'', ImageLoaded 0, ImageLoaded 0]
      (construct 1000 600 0 0 (9 / 10) ''u'')) 13) = Some (200, 565) \<and>
   bigBallId (run (\<lambda>c. '''') [SetDimensions 0 400 300 (9 / 10) ''v'', ImageLoaded 0, ImageLoaded 0]
      (construct 1000 600 0 0 (9 / 10) ''u'')) = 15 \<and>
   worldBodies (run (\<lambda>c. '''') [SetDimensions 0 400 300 (9 / 10) ''v'', ImageLoaded 0, ImageLoaded 0, Frame]
      (construct 1000 600 0 0 (9 / 10) ''u'')) = [7, 8, 9, 11, 15] \<and>
   emojiCount (run (\<lambda>c. '''') [SetDimensions 0 400 300 (9 / 10) ''v'', ImageLoaded 0, ImageLoaded 0, Frame]
      (construct 1000 600 0 0 (9 / 10) ''u'')) = - 1"
  by (simp add: build_defs event_defs afterRender_def allBodies_def List.map_filter_def parts_def
        cleanupPart_def isEmoji_def outOfBounds_def World_remove_def part.truncate_def)

subsection \<open>The texture cache\<close>


lemma getEmojiTexture_miss:
  assumes "emojiMap st e = None"
  shows "rasterLog (snd (getEmojiTexture enc e st)) = rasterLog st @ [e]"
    and "emojiMap (snd (getEmojiTexture enc e st)) = (emojiMap st)(e \<mapsto> fst (getEmojiTexture enc e st))"
    and "fst (getEmojiTexture enc e st) = fst (createEmojiTexture enc e st)"
  using assms by (simp_all add: getEmojiTexture_def createEmojiTexture_def Let_def)

lemma getEmojiTexture_hit:
  assumes "emojiMap st e = Some tex"
  shows "getEmojiTexture enc e st = (tex, st)"
  using assms by (simp add: getEmojiTexture_def)

lemma getEmojiTexture_cached:
  "emojiMap (snd (getEmojiTexture enc e st)) e = Some (fst (getEmojiTexture enc e st))"
  by (cases "emojiMap st e") (simp_all add: getEmojiTexture_miss getEmojiTexture_hit)

lemma getEmojiTexture_keeps:
  assumes "emojiMap st e' = Some tex"
  shows "emojiMap (snd (getEmojiTexture enc e st)) e' = Some tex"
proof (cases "emojiMap st e")
  case None
  then have "e \<noteq> e'" using assms by auto
  then show ?thesis using assms by (simp add: getEmojiTexture_miss(2)[OF None])
next
  case (Some t)
  then show ?thesis using assms by (simp add: getEmojiTexture_hit)
qed

lemma CreateEmojiBall_cache:
  "emojiMap (snd (CreateEmojiBall enc e rnd st)) =
     (if emojiCount st \<ge> MAX_EMOJIS then emojiMap st else emojiMap (snd (getEmojiTexture enc e st)))"
  "rasterLog (snd (CreateEmojiBall enc e rnd st)) =
     (if emojiCount st \<ge> MAX_EMOJIS then rasterLog st else rasterLog (snd (getEmojiTexture enc e st)))"
  by (simp_all add: CreateEmojiBall_def Let_def case_prod_beta create_def World_add_def)

lemma cache_frame:
  "emojiMap (Body_applyForce q pos f st) = emojiMap st"
  "rasterLog (Body_applyForce q pos f st) = rasterLog st"
  "rasterLog (img_onload img st) = rasterLog st"
  by (simp_all add: Body_applyForce_def img_onload_def create_def Let_def World_add_def
      World_add_constraint_def split: option.splits)

lemma beforeUpdate_rasterLog: "rasterLog (beforeUpdate st) = rasterLog st"
  using beforeUpdate_form[of st] by (auto simp: cache_frame)

lemma step_cache_frame:
  assumes "\<And>e rnd. ev \<noteq> CallCreateEmojiBall e rnd"
  shows "emojiMap (step enc ev st) = emojiMap st" "rasterLog (step enc ev st) = rasterLog st"
  using assms
  by (cases ev; simp add: ClearAllEmojis_eq afterRender_eq Init_frame set_Dimensions_def
      engineUpdate_def Let_def settle_def img_onload_fields img_onerror_def cache_frame
      beforeUpdate_rasterLog)+

lemma step_keeps_texture:
  assumes "emojiMap st e = Some tex"
  shows "emojiMap (step enc ev st) e = Some tex"
proof (cases "\<exists>e' rnd. ev = CallCreateEmojiBall e' rnd")
  case True
  then obtain e' rnd where ev: "ev = CallCreateEmojiBall e' rnd" by blast
  show ?thesis using assms by (simp add: ev CreateEmojiBall_cache getEmojiTexture_keeps)
next
  case False
  then show ?thesis using assms step_cache_frame(1)[of ev enc st] by simp
qed

lemma run_keeps_texture:
  "emojiMap st e = Some tex \<Longrightarrow> emojiMap (run enc evs st) e = Some tex"
  unfolding run_def by (induction evs arbitrary: st) (simp_all add: step_keeps_texture)

lemma getEmojiTexture_log:
  assumes "distinct (rasterLog st)" "set (rasterLog st) = dom (emojiMap st)"
  shows "distinct (rasterLog (snd (getEmojiTexture enc e st))) \<and>
         set (rasterLog (snd (getEmojiTexture enc e st))) = dom (emojiMap (snd (getEmojiTexture enc e st)))"
proof (cases "emojiMap st e")
  case None
  then have "e \<notin> set (rasterLog st)" using assms(2) by auto
  then show ?thesis using assms by (simp add: getEmojiTexture_miss[OF None])
next
  case (Some t)
  then show ?thesis using assms by (simp add: getEmojiTexture_hit)
qed

lemma step_log:
  assumes "distinct (rasterLog st) \<and> set (rasterLog st) = dom (emojiMap st)"
  shows "distinct (rasterLog (step enc ev st)) \<and>
         set (rasterLog (step enc ev st)) = dom (emojiMap (step enc ev st))"
proof (cases "\<exists>e' rnd. ev = CallCreateEmojiBall e' rnd")
  case True
  then obtain e' rnd where ev: "ev = CallCreateEmojiBall e' rnd" by blast
  show ?thesis using assms getEmojiTexture_log[of st enc e']
    by (simp add: ev CreateEmojiBall_cache)
next
  case False
  then show ?thesis using assms step_cache_frame[of ev enc st] by simp
qed

lemma run_log:
  "distinct (rasterLog st) \<and> set (rasterLog st) = dom (emojiMap st) \<Longrightarrow>
   distinct (rasterLog (run enc evs st)) \<and> set (rasterLog (run enc evs st)) = dom (emojiMap (run enc evs st))"
  unfolding run_def by (induction evs arbitrary: st) (simp_all add: step_log)

lemma construct_cache:
  "rasterLog (construct w h t n0 rnd url) = []" "emojiMap (construct w h t n0 rnd url) = Map.empty"
  by (simp_all add: construct_def Init_frame initializeRender_def initializeEngineAndWorld_def
      create_def fresh_def)

lemma createEmojiTexture_draws:
  "\<exists>c. sharedCanvas (snd (createEmojiTexture enc e st)) = Some c \<and>
       fst (createEmojiTexture enc e st) = enc c \<and>
       drawn c = [(e, canvasWidth c / 2, canvasHeight c / 2)]"
  by (cases "sharedCanvas st") (simp_all add: createEmojiTexture_def Let_def)

lemma getEmojiTexture_draws:
  assumes "emojiMap st e = None"
  shows "\<exists>c. sharedCanvas (snd (getEmojiTexture enc e st)) = Some c \<and>
       fst (getEmojiTexture enc e st) = enc c \<and>
       drawn c = [(e, canvasWidth c / 2, canvasHeight c / 2)]"
  using assms createEmojiTexture_draws[of enc e st]
  by (simp add: getEmojiTexture_def case_prod_beta)

lemma getEmojiTexture_glyph:
  assumes none: "emojiMap st e = None"
    and cv: "sharedCanvas st = (if rasterLog st = [] then None else Some (glyphCanvas (last (rasterLog st))))"
  shows "getEmojiTexture enc e st =
           (enc (glyphCanvas e),
            st\<lparr>sharedCanvas := Some (glyphCanvas e), rasterLog := rasterLog st @ [e],
               emojiMap := (emojiMap st)(e \<mapsto> enc (glyphCanvas e))\<rparr>)"
proof (cases "rasterLog st = []")
  case True
  then have "sharedCanvas st = None" using cv by simp
  then show ?thesis using none
    by (simp add: getEmojiTexture_def createEmojiTexture_def Let_def glyphCanvas_def)
next
  case False
  then have "sharedCanvas st = Some (glyphCanvas (last (rasterLog st)))" using cv by simp
  then show ?thesis using none
    by (simp add: getEmojiTexture_def createEmojiTexture_def Let_def glyphCanvas_def)
qed

lemma getEmojiTexture_canvas_inv:
  assumes cv: "sharedCanvas st = (if rasterLog st = [] then None else Some (glyphCanvas (last (rasterLog st))))"
    and mp: "\<forall>e' tex. emojiMap st e' = Some tex \<longrightarrow> tex = enc (glyphCanvas e')"
  shows "sharedCanvas (snd (getEmojiTexture enc e st))
           = (if rasterLog (snd (getEmojiTexture enc e st)) = [] then None
              else Some (glyphCanvas (last (rasterLog (snd (getEmojiTexture enc e st))))))"
    and "\<forall>e' tex. emojiMap (snd (getEmojiTexture enc e st)) e' = Some tex \<longrightarrow> tex = enc (glyphCanvas e')"
proof -
  show "sharedCanvas (snd (getEmojiTexture enc e st))
           = (if rasterLog (snd (getEmojiTexture enc e st)) = [] then None
              else Some (glyphCanvas (last (rasterLog (snd (getEmojiTexture enc e st))))))"
  proof (cases "emojiMap st e")
    case None
    show ?thesis unfolding getEmojiTexture_glyph[OF None cv] by simp
  next
    case (Some t)
    show ?thesis unfolding getEmojiTexture_hit[OF Some] using cv by simp
  qed
  show "\<forall>e' tex. emojiMap (snd (getEmojiTexture enc e st)) e' = Some tex \<longrightarrow> tex = enc (glyphCanvas e')"
  proof (cases "emojiMap st e")
    case None
    show ?thesis unfolding getEmojiTexture_glyph[OF None cv] using mp by simp
  next
    case (Some t)
    show ?thesis unfolding getEmojiTexture_hit[OF Some] using mp by simp
  qed
qed

lemma CreateEmojiBall_canvas:
  "sharedCanvas (snd (CreateEmojiBall enc e rnd st)) =
     (if emojiCount st \<ge> MAX_EMOJIS then sharedCanvas st else sharedCanvas (snd (getEmojiTexture enc e st)))"
  by (simp add: CreateEmojiBall_def Let_def case_prod_beta create_def World_add_def)

lemma beforeUpdate_canvas: "sharedCanvas (beforeUpdate st) = sharedCanvas st"
  by (simp add: beforeUpdate_def Let_def Body_applyForce_def split: option.splits)

lemma step_canvas_frame:
  assumes "\<And>e rnd. ev \<noteq> CallCreateEmojiBall e rnd"
  shows "sharedCanvas (step enc ev st) = sharedCanvas st"
  using assms
  by (cases ev; simp add: ClearAllEmojis_eq afterRender_eq Init_frame set_Dimensions_def
      engineUpdate_def Let_def settle_def img_onerror_def beforeUpdate_canvas
      img_onload_def create_def World_add_def World_add_constraint_def)+

lemma step_canvas_inv:
  assumes cv: "sharedCanvas st = (if rasterLog st = [] then None else Some (glyphCanvas (last (rasterLog st))))"
    and mp: "\<forall>e' tex. emojiMap st e' = Some tex \<longrightarrow> tex = enc (glyphCanvas e')"
  shows "sharedCanvas (step enc ev st)
           = (if rasterLog (step enc ev st) = [] then None
              else Some (glyphCanvas (last (rasterLog (step enc ev st))))) \<and>
         (\<forall>e' tex. emojiMap (step enc ev st) e' = Some tex \<longrightarrow> tex = enc (glyphCanvas e'))"
proof (cases "\<exists>e rnd. ev = CallCreateEmojiBall e rnd")
  case True
  then obtain e rnd where ev: "ev = CallCreateEmojiBall e rnd" by blast
  show ?thesis
    using getEmojiTexture_canvas_inv[OF cv mp, of e] cv mp
    by (simp add: ev CreateEmojiBall_cache CreateEmojiBall_canvas)
next
  case False
  then show ?thesis
    using cv mp step_cache_frame[of ev enc st] step_canvas_frame[of ev enc st] by simp
qed

lemma run_canvas_inv:
  "sharedCanvas st = (if rasterLog st = [] then None else Some (glyphCanvas (last (rasterLog st)))) \<and>
   (\<forall>e' tex. emojiMap st e' = Some tex \<longrightarrow> tex = enc (glyphCanvas e')) \<Longrightarrow>
   sharedCanvas (run enc evs st)
      = (if rasterLog (run enc evs st) = [] then None
         else Some (glyphCanvas (last (rasterLog (run enc evs st))))) \<and>
   (\<forall>e' tex. emojiMap (run enc evs st) e' = Some tex \<longrightarrow> tex = enc (glyphCanvas e'))"
  unfolding run_def
proof (induction evs arbitrary: st)
  case Nil
  then show ?case by simp
next
  case (Cons ev evs)
  have "sharedCanvas (step enc ev st)
           = (if rasterLog (step enc ev st) = [] then None
              else Some (glyphCanvas (last (rasterLog (step enc ev st))))) \<and>
         (\<forall>e' tex. emojiMap (step enc ev st) e' = Some tex \<longrightarrow> tex = enc (glyphCanvas e'))"
    using Cons.prems step_canvas_inv[of st enc ev] by blast
  from Cons.IH[OF this] show ?case by simp
qed

lemma construct_canvas: "sharedCanvas (construct w h t n0 rnd url) = None"
  by (simp add: construct_def Init_frame initializeRender_def initializeEngineAndWorld_def
      create_def fresh_def)

text \<open>
  C9. \<open>getEmojiTexture\<close> for a symbol that is not in the cache draws the symbol: the
  shared canvas then holds exactly that symbol, at its centre, the value returned is the
  encoding of that canvas, and it is stored under the symbol (one entry more in the log
  of rasterizations). After that, whatever else happens to the instance, a call for the
  same symbol returns that same value and leaves the instance as it is, the canvas
  included, so no drawing takes place; no event removes or changes a cached entry. From
  construction on, the symbols rasterized are exactly the cached ones, each rasterized
  once; every cached value is the encoding of the 32 by 32 canvas holding its symbol
  alone; the shared canvas holds the symbol rasterized last; and a call for a symbol
  that is not cached returns the encoding of the canvas holding that symbol and changes
  the canvas, the cache and the log only.
\<close>

theorem texture_cache:
  fixes toDataURL :: "canvas \<Rightarrow> string" and evs evs' :: "event list"
    and w h t rnd :: real and n0 :: nat and url :: string
  defines "S \<equiv> run toDataURL evs (construct w h t n0 rnd url)"
  shows
  "(emojiMap st emoji = None \<longrightarrow>
      rasterLog (snd (getEmojiTexture toDataURL emoji st)) = rasterLog st @ [emoji] \<and>
      emojiMap (snd (getEmojiTexture toDataURL emoji st))
        = (emojiMap st)(emoji \<mapsto> fst (getEmojiTexture toDataURL emoji st)) \<and>
      (\<exists>c. sharedCanvas (snd (getEmojiTexture toDataURL emoji st)) = Some c \<and>
           fst (getEmojiTexture toDataURL emoji st) = toDataURL c \<and>
           drawn c = [(emoji, canvasWidth c / 2, canvasHeight c / 2)])) \<and>
   getEmojiTexture toDataURL emoji (run toDataURL evs' (snd (getEmojiTexture toDataURL emoji st)))
     = (fst (getEmojiTexture toDataURL emoji st),
        run toDataURL evs' (snd (getEmojiTexture toDataURL emoji st))) \<and>
   (emojiMap st emoji = Some tex \<longrightarrow> emojiMap (run toDataURL evs' st) emoji = Some tex) \<and>
   distinct (rasterLog S) \<and>
   set (rasterLog S) = dom (emojiMap S) \<and>
   (\<forall>e tex'. emojiMap S e = Some tex' \<longrightarrow> tex' = toDataURL (glyphCanvas e)) \<and>
   sharedCanvas S = (if rasterLog S = [] then None else Some (glyphCanvas (last (rasterLog S)))) \<and>
   (emojiMap S emoji = None \<longrightarrow>
      getEmojiTexture toDataURL emoji S =
        (toDataURL (glyphCanvas emoji),
         S\<lparr>sharedCanvas := Some (glyphCanvas emoji), rasterLog := rasterLog S @ [emoji],
           emojiMap := (emojiMap S)(emoji \<mapsto> toDataURL (glyphCanvas emoji))\<rparr>))"
proof -
  have 1: "rasterLog (snd (getEmojiTexture toDataURL emoji st)) = rasterLog st @ [emoji] \<and>
      emojiMap (snd (getEmojiTexture toDataURL emoji st))
        = (emojiMap st)(emoji \<mapsto> fst (getEmojiTexture toDataURL emoji st)) \<and>
      (\<exists>c. sharedCanvas (snd (getEmojiTexture toDataURL emoji st)) = Some c \<and>
           fst (getEmojiTexture toDataURL emoji st) = toDataURL c \<and>
           drawn c = [(emoji, canvasWidth c / 2, canvasHeight c / 2)])"
    if "emojiMap st emoji = None"
    using getEmojiTexture_miss(1,2)[OF that] getEmojiTexture_draws[OF that] by simp
  have "emojiMap (run toDataURL evs' (snd (getEmojiTexture toDataURL emoji st))) emoji
      = Some (fst (getEmojiTexture toDataURL emoji st))"
    by (rule run_keeps_texture[OF getEmojiTexture_cached])
  then have 2: "getEmojiTexture toDataURL emoji (run toDataURL evs' (snd (getEmojiTexture toDataURL emoji st)))
     = (fst (getEmojiTexture toDataURL emoji st),
        run toDataURL evs' (snd (getEmojiTexture toDataURL emoji st)))"
    by (rule getEmojiTexture_hit)
  have 3: "emojiMap (run toDataURL evs' st) emoji = Some tex" if "emojiMap st emoji = Some tex"
    using that by (rule run_keeps_texture)
  have 4: "distinct (rasterLog S) \<and> set (rasterLog S) = dom (emojiMap S)"
    unfolding S_def by (rule run_log) (simp add: construct_cache)
  have 5: "sharedCanvas S = (if rasterLog S = [] then None else Some (glyphCanvas (last (rasterLog S)))) \<and>
      (\<forall>e tex'. emojiMap S e = Some tex' \<longrightarrow> tex' = toDataURL (glyphCanvas e))"
    unfolding S_def by (rule run_canvas_inv) (simp add: construct_cache construct_canvas)
  have 6: "getEmojiTexture toDataURL emoji S =
        (toDataURL (glyphCanvas emoji),
         S\<lparr>sharedCanvas := Some (glyphCanvas emoji), rasterLog := rasterLog S @ [emoji],
           emojiMap := (emojiMap S)(emoji \<mapsto> toDataURL (glyphCanvas emoji))\<rparr>)"
    if "emojiMap S emoji = None"
    using that 5 by (intro getEmojiTexture_glyph) simp_all
  show ?thesis using 1 2 3 4 5 6 by blast
qed

theorem texture_cache_witness:
  "emojiMap (run (\<lambda>c. concat (map fst (drawn c))) [CallCreateEmojiBall ''a'' (1 / 2)]
      (construct 1000 600 0 0 (9 / 10) ''u'')) ''a'' = Some ''a'' \<and>
   emojiMap (run (\<lambda>c. concat (map fst (drawn c))) [CallCreateEmojiBall ''a'' (1 / 2)]
      (construct 1000 600 0 0 (9 / 10) ''u'')) ''b'' = None \<and>
   fst (getEmojiTexture (\<lambda>c. concat (map fst (drawn c))) ''b''
      (run (\<lambda>c. concat (map fst (drawn c))) [CallCreateEmojiBall ''a'' (1 / 2)]
         (construct 1000 600 0 0 (9 / 10) ''u''))) = ''b'' \<and>
   sharedCanvas (snd (getEmojiTexture (\<lambda>c. concat (map fst (drawn c))) ''b''
      (run (\<lambda>c. concat (map fst (drawn c))) [CallCreateEmojiBall ''a'' (1 / 2)]
         (construct 1000 600 0 0 (9 / 10) ''u'')))) = Some (glyphCanvas ''b'') \<and>
   emojiMap (run (\<lambda>c. concat (map fst (drawn c))) [CallInit (1 / 10) ''v'', CallClearAllEmojis]
      (snd (getEmojiTexture (\<lambda>c. concat (map fst (drawn c))) ''b''
        (run (\<lambda>c. concat (map fst (drawn c))) [CallCreateEmojiBall ''a'' (1 / 2)]
           (construct 1000 600 0 0 (9 / 10) ''u''))))) ''b'' = Some ''b''"
proof -
  let ?enc = "\<lambda>c. concat (map fst (drawn c))"
  let ?S = "run ?enc [CallCreateEmojiBall ''a'' (1 / 2)] (construct 1000 600 0 0 (9 / 10) ''u'')"
  let ?s1 = "snd (getEmojiTexture ?enc ''b'' ?S)"
  have a: "emojiMap ?S ''a'' = Some ''a''" and b: "emojiMap ?S ''b'' = None"
    by (simp_all add: run_def CreateEmojiBall_cache MAX_EMOJIS_def construct_start
        getEmojiTexture_miss construct_cache createEmojiTexture_def Let_def construct_canvas)
  note t = texture_cache[of ?S "''b''" ?enc "[CallInit (1 / 10) ''v'', CallClearAllEmojis]" "''b''"
      "[CallCreateEmojiBall ''a'' (1 / 2)]" 1000 600 0 0 "9 / 10" "''u''"]
  have g: "getEmojiTexture ?enc ''b'' ?S =
        (?enc (glyphCanvas ''b''),
         ?S\<lparr>sharedCanvas := Some (glyphCanvas ''b''), rasterLog := rasterLog ?S @ [''b''],
           emojiMap := (emojiMap ?S)(''b'' \<mapsto> ?enc (glyphCanvas ''b''))\<rparr>)"
    using t b by blast
  have e: "?enc (glyphCanvas ''b'') = ''b''" by (simp add: glyphCanvas_def)
  have f: "fst (getEmojiTexture ?enc ''b'' ?S) = ''b''" unfolding g e by simp
  have c: "sharedCanvas ?s1 = Some (glyphCanvas ''b'')" unfolding g by simp
  have m: "emojiMap ?s1 ''b'' = Some ''b''" unfolding g e by simp
  have m': "emojiMap (run ?enc [CallInit (1 / 10) ''v'', CallClearAllEmojis] ?s1) ''b'' = Some ''b''"
    using texture_cache[of ?s1 "''b''" ?enc "[CallInit (1 / 10) ''v'', CallClearAllEmojis]" "''b''"
      "[]" 0 0 0 0 0 "''''"] m by blast
  show ?thesis using a b f c m' by blast
qed

subsection \<open>The swing\<close>


lemma beforeUpdate_none: "bigBallBody st = None \<Longrightarrow> beforeUpdate st = st"
  by (simp add: beforeUpdate_def bigBallBody_def split: option.splits)

lemma beforeUpdate_direction:
  assumes "bigBallBody st = Some b"
  shows "swingDirection (beforeUpdate st) =
           (if \<bar>swingAngle st b\<bar> > pi * 0.7 \<and> swingDirection st = -1 then 1
            else if \<bar>swingAngle st b\<bar> < pi * 0.3 \<and> swingDirection st = 1 then -1
            else swingDirection st)"
proof -
  from assms obtain r where r: "bigBall st = Some r" "heap st r = Some b"
    by (auto simp: bigBallBody_def split: option.splits)
  show ?thesis
    by (simp add: beforeUpdate_def Let_def r)
qed

lemma step_direction_frame:
  assumes "\<And>mv. ev \<noteq> Tick mv"
  shows "swingDirection (step enc ev st) = swingDirection st"
proof (cases ev)
  case (CallCreateEmojiBall e rnd)
  show ?thesis
  proof (cases "emojiCount st < MAX_EMOJIS")
    case True
    then show ?thesis using CreateEmojiBall_room(7)[OF True, of enc e rnd]
      by (simp add: CallCreateEmojiBall)
  next
    case False
    then show ?thesis by (simp add: CallCreateEmojiBall CreateEmojiBall_full)
  qed
next
  case (Tick mv)
  then show ?thesis using assms by simp
qed (simp_all add: ClearAllEmojis_eq afterRender_eq Init_frame set_Dimensions_def settle_def
      img_onload_fields img_onerror_def)

text \<open>
  C6, amended. The swing direction changes only in the \<open>beforeUpdate\<close> handler of an
  engine tick and only while a pendulum body exists: from -1 to 1 when \<open>|\<theta>| > 0.7\<pi>\<close>,
  from 1 to -1 when \<open>|\<theta>| < 0.3\<pi>\<close>, with \<open>\<theta>\<close> the angle the handler computes,
  \<open>Math.atan2\<close> of the body's offset from the anchor, which is measured from the positive
  x axis (\<open>\<pi>/2\<close> when the body hangs straight down) and not from the vertical. No other
  event changes the direction, and in those two situations a tick does change it.
\<close>

theorem swing_direction_flips:
  "(swingDirection (step toDataURL ev st) \<noteq> swingDirection st \<longrightarrow>
      (\<exists>mv b. ev = Tick mv \<and> bigBallBody st = Some b \<and>
         (swingDirection st = -1 \<and> swingDirection (step toDataURL ev st) = 1 \<and>
            \<bar>swingAngle st b\<bar> > pi * 0.7 \<or>
          swingDirection st = 1 \<and> swingDirection (step toDataURL ev st) = -1 \<and>
            \<bar>swingAngle st b\<bar> < pi * 0.3))) \<and>
   (bigBallBody st = Some b \<and> swingDirection st = -1 \<and> \<bar>swingAngle st b\<bar> > pi * 0.7 \<longrightarrow>
      swingDirection (step toDataURL (Tick mv) st) = 1) \<and>
   (bigBallBody st = Some b \<and> swingDirection st = 1 \<and> \<bar>swingAngle st b\<bar> < pi * 0.3 \<longrightarrow>
      swingDirection (step toDataURL (Tick mv) st) = -1)"
proof -
  have tick: "swingDirection (step toDataURL (Tick mv') st) = swingDirection (beforeUpdate st)" for mv'
    by (simp add: engineUpdate_def Let_def)
  have 1: "\<exists>mv b. ev = Tick mv \<and> bigBallBody st = Some b \<and>
         (swingDirection st = -1 \<and> swingDirection (step toDataURL ev st) = 1 \<and>
            \<bar>swingAngle st b\<bar> > pi * 0.7 \<or>
          swingDirection st = 1 \<and> swingDirection (step toDataURL ev st) = -1 \<and>
            \<bar>swingAngle st b\<bar> < pi * 0.3)"
    if ch: "swingDirection (step toDataURL ev st) \<noteq> swingDirection st"
  proof -
    obtain mv' where ev: "ev = Tick mv'"
      using ch step_direction_frame[of ev toDataURL st] by blast
    have ch': "swingDirection (beforeUpdate st) \<noteq> swingDirection st" using ch tick ev by simp
    then obtain b' where b': "bigBallBody st = Some b'"
      using beforeUpdate_none[of st] by (cases "bigBallBody st") auto
    have "swingDirection st = -1 \<and> swingDirection (beforeUpdate st) = 1 \<and>
            \<bar>swingAngle st b'\<bar> > pi * 0.7 \<or>
          swingDirection st = 1 \<and> swingDirection (beforeUpdate st) = -1 \<and>
            \<bar>swingAngle st b'\<bar> < pi * 0.3"
      using ch' unfolding beforeUpdate_direction[OF b'] by (auto split: if_splits)
    then show ?thesis using ev b' tick by auto
  qed
  have 2: "swingDirection (step toDataURL (Tick mv) st) = 1"
    if h: "bigBallBody st = Some b \<and> swingDirection st = -1 \<and> \<bar>swingAngle st b\<bar> > pi * 0.7"
  proof -
    from h have b: "bigBallBody st = Some b" by simp
    have "swingDirection (beforeUpdate st) = 1"
      unfolding beforeUpdate_direction[OF b] using h by simp
    then show ?thesis unfolding tick .
  qed
  have 3: "swingDirection (step toDataURL (Tick mv) st) = -1"
    if h: "bigBallBody st = Some b \<and> swingDirection st = 1 \<and> \<bar>swingAngle st b\<bar> < pi * 0.3"
  proof -
    from h have b: "bigBallBody st = Some b" by simp
    have "swingDirection (beforeUpdate st) = -1"
      unfolding beforeUpdate_direction[OF b] using h by simp
    then show ?thesis unfolding tick .
  qed
  show ?thesis using 1 2 3 by blast
qed


lemma pi_cmp [simp]:
  "\<bar>pi\<bar> = pi" "pi * (7 / 10) < pi" "\<not> pi < pi / 2" "\<not> pi < pi * (3 / 10)"
  using pi_gt_zero by simp_all

lemmas tick_defs =
  run_def settle_def img_onload_def img_onerror_def bigBallAnchorPoint_def
  CreateEmojiBall_def getEmojiTexture_def createEmojiTexture_def MAX_EMOJIS_def
  engineUpdate_def beforeUpdate_def swingAngle_def Body_applyForce_def swingForce_def
  moveBody_def movePart_def set_Dimensions_def

lemma atan2_rest [simp]: "atan2 565 0 = pi / 2"
  by (simp add: atan2_def)

lemma atan2_far_left: "3 * pi / 4 < atan2 309 (- 412)" "atan2 309 (- 412) < pi"
proof -
  have a: "atan2 309 (- 412) = pi - arctan (3 / 4)"
    by (simp add: atan2_def arctan_minus)
  have "arctan (3 / 4) < arctan 1" by (simp add: arctan_less_iff)
  then have lt: "arctan (3 / 4) < pi / 4" by (simp add: arctan_one)
  have gt: "0 < arctan (3 / 4)" by simp
  show "3 * pi / 4 < atan2 309 (- 412)" unfolding a using lt by simp
  show "atan2 309 (- 412) < pi" unfolding a using gt by simp
qed

lemma atan2_far_left_cmp [simp]:
  "pi * (7 / 10) < \<bar>atan2 309 (- 412)\<bar>" "\<not> \<bar>atan2 309 (- 412)\<bar> < pi / 2"
  "pi * 7 < \<bar>atan2 309 (- 412)\<bar> * 10" "\<not> \<bar>atan2 309 (- 412)\<bar> * 2 < pi"
  using atan2_far_left pi_gt_zero by (simp_all add: abs_if)

text \<open>The motions used below keep the two paddles of the paddle layout at their pins
  and put the pendulum at a point of its circle of radius 515 about the anchor
  (500, 0).\<close>

theorem swing_direction_flips_witness:
  "swingDirection (run (\<lambda>c. '''')
      [ImageLoaded 0, Tick (\<lambda>i. if i = 7 then ((88, 309), 0) else if i = 3 then ((610, 250), 0) else ((390, 250), 0))]
      (construct 1000 600 0 0 (9 / 10) ''u'')) = - 1 \<and>
   swingDirection (step (\<lambda>c. '''')
      (Tick (\<lambda>i. if i = 7 then ((191, 412), 0) else if i = 3 then ((610, 250), 0) else ((390, 250), 0)))
      (run (\<lambda>c. '''')
         [ImageLoaded 0, Tick (\<lambda>i. if i = 7 then ((88, 309), 0) else if i = 3 then ((610, 250), 0) else ((390, 250), 0))]
         (construct 1000 600 0 0 (9 / 10) ''u''))) = 1 \<and>
   (\<exists>b. bigBallBody (run (\<lambda>c. '''')
           [ImageLoaded 0, Tick (\<lambda>i. if i = 7 then ((88, 309), 0) else if i = 3 then ((610, 250), 0) else ((390, 250), 0))]
           (construct 1000 600 0 0 (9 / 10) ''u'')) = Some b \<and>
        position b = (88, 309) \<and>
        pi * 0.7 < \<bar>swingAngle (run (\<lambda>c. '''')
           [ImageLoaded 0, Tick (\<lambda>i. if i = 7 then ((88, 309), 0) else if i = 3 then ((610, 250), 0) else ((390, 250), 0))]
           (construct 1000 600 0 0 (9 / 10) ''u'')) b\<bar>)"
proof -
  let ?S = "run (\<lambda>c. '''')
      [ImageLoaded 0, Tick (\<lambda>i. if i = 7 then ((88, 309), 0) else if i = 3 then ((610, 250), 0) else ((390, 250), 0))]
      (construct 1000 600 0 0 (9 / 10) ''u'')"
  let ?b = "\<lparr>ident = 7, label = ''Circle Body'', isStatic = False, position = (88, 309), angle = 0,
       force = (0, 0), torque = 0, shape = Circle 50, texture = Some ''u'', maker = Pendulum,
       children = []\<rparr>"
  have bb: "bigBallBody ?S = Some ?b"
    by (simp add: bigBallBody_def build_defs tick_defs)
  have dir: "swingDirection ?S = - 1"
    by (simp add: build_defs tick_defs)
  have w: "RenderWidth ?S = 1000" by (simp add: build_defs tick_defs)
  have ang: "swingAngle ?S ?b = atan2 309 (- 412)"
    by (simp add: swingAngle_def bigBallAnchorPoint_def w)
  have big: "pi * 0.7 < \<bar>swingAngle ?S ?b\<bar>"
    unfolding ang using atan2_far_left_cmp(1) by simp
  have h: "bigBallBody ?S = Some ?b \<and> swingDirection ?S = - 1 \<and> \<bar>swingAngle ?S ?b\<bar> > pi * 0.7"
    using bb dir big by blast
  note t = swing_direction_flips[of "\<lambda>c. ''''"
      "Tick (\<lambda>i. if i = 7 then ((191, 412), 0) else if i = 3 then ((610, 250), 0) else ((390, 250), 0))" ?S ?b
      "\<lambda>i. if i = 7 then ((191, 412), 0) else if i = 3 then ((610, 250), 0) else ((390, 250), 0)"]
  have "swingDirection (step (\<lambda>c. '''')
      (Tick (\<lambda>i. if i = 7 then ((191, 412), 0) else if i = 3 then ((610, 250), 0) else ((390, 250), 0))) ?S) = 1"
    using t h by blast
  moreover have "position ?b = (88, 309)" by simp
  ultimately show ?thesis using dir bb big by blast
qed


lemma Body_applyForce_at_centre:
  assumes "heap st r = Some b"
  shows "heap (Body_applyForce r (position b) (fx, 0) st) =
           (heap st)(r \<mapsto> b\<lparr>force := (fst (force b) + fx, snd (force b)), torque := torque b\<rparr>)"
  using assms by (simp add: Body_applyForce_def)

lemma beforeUpdate_heap_eq:
  assumes r: "bigBall st = Some r" and b: "heap st r = Some b"
  shows "heap (beforeUpdate st) =
     (if (swingDirection (beforeUpdate st) = 1 \<and> \<bar>swingAngle st b\<bar> < pi / 2) \<or>
         (swingDirection (beforeUpdate st) = -1 \<and> \<bar>swingAngle st b\<bar> > pi / 2)
      then (heap st)(r \<mapsto>
             b\<lparr>force := (fst (force b) + real_of_int (swingDirection (beforeUpdate st)) * 50,
                          snd (force b)),
               torque := torque b\<rparr>)
      else heap st)"
proof -
  define st1 where "st1 = (if \<bar>swingAngle st b\<bar> > pi * 0.7 \<and> swingDirection st = -1
                           then st\<lparr>swingDirection := 1\<rparr>
                           else if \<bar>swingAngle st b\<bar> < pi * 0.3 \<and> swingDirection st = 1
                           then st\<lparr>swingDirection := -1\<rparr>
                           else st)"
  have h1: "heap st1 = heap st" by (simp add: st1_def)
  have eq: "beforeUpdate st =
        (if (swingDirection st1 = 1 \<and> \<bar>swingAngle st b\<bar> < pi / 2) \<or>
            (swingDirection st1 = -1 \<and> \<bar>swingAngle st b\<bar> > pi / 2)
         then Body_applyForce r (position b) (real_of_int (swingDirection st1) * swingForce, 0) st1
         else st1)"
    unfolding st1_def using r b by (simp add: beforeUpdate_def Let_def)
  have d: "swingDirection (beforeUpdate st) = swingDirection st1"
    unfolding eq by simp
  have b1: "heap st1 r = Some b" using b h1 by simp
  show ?thesis
  proof (cases "(swingDirection st1 = 1 \<and> \<bar>swingAngle st b\<bar> < pi / 2) \<or>
            (swingDirection st1 = -1 \<and> \<bar>swingAngle st b\<bar> > pi / 2)")
    case True
    then have "beforeUpdate st =
        Body_applyForce r (position b) (real_of_int (swingDirection st1) * swingForce, 0) st1"
      by (simp only: eq if_True)
    then have "heap (beforeUpdate st) = (heap st)(r \<mapsto>
             b\<lparr>force := (fst (force b) + real_of_int (swingDirection st1) * 50, snd (force b)),
               torque := torque b\<rparr>)"
      using Body_applyForce_at_centre[OF b1] h1 by (simp add: swingForce_def)
    then show ?thesis using True unfolding d by (simp only: if_True)
  next
    case False
    then have "beforeUpdate st = st1" by (simp only: eq if_False)
    then have "heap (beforeUpdate st) = heap st" using h1 by simp
    then show ?thesis using False unfolding d by (simp only: if_False)
  qed
qed

lemma atan2_left_below:
  assumes "x < 0" "0 < y"
  shows "pi / 2 < atan2 y x" "atan2 y x < pi"
proof -
  have neg: "y / x < 0" using assms by (simp add: divide_pos_neg)
  have a: "atan2 y x = arctan (y / x) + pi" using assms by (simp add: atan2_def)
  show "pi / 2 < atan2 y x" unfolding a using arctan_lbound[of "y / x"] by simp
  show "atan2 y x < pi" unfolding a using neg by simp
qed

lemma atan2_below: "0 < x \<Longrightarrow> \<bar>atan2 y x\<bar> < pi / 2"
  using arctan_lbound[of "y / x"] arctan_ubound[of "y / x"] by (simp add: atan2_def abs_if)

text \<open>
  C6, as stated, at a concrete state. The pendulum is at (88, 309), far out on the left
  of its circle of radius 515 about the anchor (500, 0), and the direction is -1. The
  next tick flips the direction to 1. The angle of the body about the anchor measured
  from the vertical is below \<open>\<pi>/2\<close> there, so it does not exceed \<open>0.7\<pi>\<close>, the only
  condition under which the claim lets the direction become positive.
\<close>

theorem swing_flip_counterexample:
  "swingDirection (run (\<lambda>c. '''')
      [ImageLoaded 0, Tick (\<lambda>i. if i = 7 then ((88, 309), 0) else if i = 3 then ((610, 250), 0) else ((390, 250), 0))]
      (construct 1000 600 0 0 (9 / 10) ''u'')) = - 1 \<and>
   swingDirection (run (\<lambda>c. '''')
      [ImageLoaded 0, Tick (\<lambda>i. if i = 7 then ((88, 309), 0) else if i = 3 then ((610, 250), 0) else ((390, 250), 0)),
       Tick (\<lambda>i. if i = 7 then ((191, 412), 0) else if i = 3 then ((610, 250), 0) else ((390, 250), 0))]
      (construct 1000 600 0 0 (9 / 10) ''u'')) = 1 \<and>
   (\<exists>b. bigBallBody (run (\<lambda>c. '''')
           [ImageLoaded 0, Tick (\<lambda>i. if i = 7 then ((88, 309), 0) else if i = 3 then ((610, 250), 0) else ((390, 250), 0))]
           (construct 1000 600 0 0 (9 / 10) ''u'')) = Some b \<and>
        position b = (88, 309) \<and>
        \<bar>spec_angleFromVertical (run (\<lambda>c. '''')
           [ImageLoaded 0, Tick (\<lambda>i. if i = 7 then ((88, 309), 0) else if i = 3 then ((610, 250), 0) else ((390, 250), 0))]
           (construct 1000 600 0 0 (9 / 10) ''u'')) b\<bar> < pi / 2 \<and>
        \<not> \<bar>spec_angleFromVertical (run (\<lambda>c. '''')
           [ImageLoaded 0, Tick (\<lambda>i. if i = 7 then ((88, 309), 0) else if i = 3 then ((610, 250), 0) else ((390, 250), 0))]
           (construct 1000 600 0 0 (9 / 10) ''u'')) b\<bar> > pi * 0.7)"
proof -
  let ?S = "run (\<lambda>c. '''')
      [ImageLoaded 0, Tick (\<lambda>i. if i = 7 then ((88, 309), 0) else if i = 3 then ((610, 250), 0) else ((390, 250), 0))]
      (construct 1000 600 0 0 (9 / 10) ''u'')"
  let ?mv = "\<lambda>i::nat. if i = 7 then ((191, 412), 0) else if i = 3 then ((610, 250), 0) else ((390::real, 250::real), 0::real)"
  let ?b = "\<lparr>ident = 7, label = ''Circle Body'', isStatic = False, position = (88, 309), angle = 0,
       force = (0, 0), torque = 0, shape = Circle 50, texture = Some ''u'', maker = Pendulum,
       children = []\<rparr>"
  have bb: "bigBallBody ?S = Some ?b"
    by (simp add: bigBallBody_def build_defs tick_defs)
  have dir: "swingDirection ?S = - 1"
    by (simp add: build_defs tick_defs)
  have w: "RenderWidth ?S = 1000" by (simp add: build_defs tick_defs)
  have ang: "swingAngle ?S ?b = atan2 309 (- 412)"
    by (simp add: swingAngle_def bigBallAnchorPoint_def w)
  have big: "pi * 0.7 < \<bar>swingAngle ?S ?b\<bar>"
    unfolding ang using atan2_far_left_cmp(1) by simp
  have flip: "swingDirection (beforeUpdate ?S) = 1"
    unfolding beforeUpdate_direction[OF bb] using dir big by simp
  have r: "run (\<lambda>c. '''')
      [ImageLoaded 0, Tick (\<lambda>i. if i = 7 then ((88, 309), 0) else if i = 3 then ((610, 250), 0) else ((390, 250), 0)),
       Tick ?mv]
      (construct 1000 600 0 0 (9 / 10) ''u'') = engineUpdate ?mv ?S"
    by (simp add: run_def)
  have after: "swingDirection (engineUpdate ?mv ?S) = 1"
    using flip by (simp add: engineUpdate_def Let_def)
  have vert: "\<bar>spec_angleFromVertical ?S ?b\<bar> < pi / 2"
    using atan2_below[of 309 "- 412"]
    by (simp add: spec_angleFromVertical_def bigBallAnchorPoint_def w)
  have nv: "\<not> \<bar>spec_angleFromVertical ?S ?b\<bar> > pi * 0.7"
  proof -
    define th where "th = \<bar>spec_angleFromVertical ?S ?b\<bar>"
    have "th < pi / 2" using vert by (simp add: th_def)
    then have "\<not> th > pi * 0.7" using pi_gt_zero by arith
    then show ?thesis by (simp add: th_def)
  qed
  have "position ?b = (88, 309)" by simp
  then show ?thesis unfolding r using dir after bb vert nv by blast
qed

text \<open>
  C7, as stated, at a concrete state. The pendulum swings on its rope of length 515
  about the anchor (500, 0). After the image has loaded, one tick takes the body to
  (88, 309), far out on the left, and the next flips the direction to 1 and takes the
  body to (191, 412), still below the anchor and left of it. There the angle from the
  vertical is within \<open>\<pi>/2\<close> and the direction is positive, before and after the
  handler's flip check; the claim has the force applied. The handler applies none: it
  measures the angle from the positive x axis, where it is above \<open>\<pi>/2\<close>.
\<close>

theorem swing_force_counterexample:
  "swingDirection (run (\<lambda>c. '''')
      [ImageLoaded 0,
       Tick (\<lambda>i. if i = 7 then ((88, 309), 0) else if i = 3 then ((610, 250), 0) else ((390, 250), 0)),
       Tick (\<lambda>i. if i = 7 then ((191, 412), 0) else if i = 3 then ((610, 250), 0) else ((390, 250), 0))]
      (construct 1000 600 0 0 (9 / 10) ''u'')) = 1 \<and>
   swingDirection (beforeUpdate (run (\<lambda>c. '''')
      [ImageLoaded 0,
       Tick (\<lambda>i. if i = 7 then ((88, 309), 0) else if i = 3 then ((610, 250), 0) else ((390, 250), 0)),
       Tick (\<lambda>i. if i = 7 then ((191, 412), 0) else if i = 3 then ((610, 250), 0) else ((390, 250), 0))]
      (construct 1000 600 0 0 (9 / 10) ''u''))) = 1 \<and>
   (\<exists>b. bigBallBody (run (\<lambda>c. '''')
           [ImageLoaded 0,
            Tick (\<lambda>i. if i = 7 then ((88, 309), 0) else if i = 3 then ((610, 250), 0) else ((390, 250), 0)),
            Tick (\<lambda>i. if i = 7 then ((191, 412), 0) else if i = 3 then ((610, 250), 0) else ((390, 250), 0))]
           (construct 1000 600 0 0 (9 / 10) ''u'')) = Some b \<and>
        position b = (191, 412) \<and>
        \<bar>spec_angleFromVertical (run (\<lambda>c. '''')
           [ImageLoaded 0,
            Tick (\<lambda>i. if i = 7 then ((88, 309), 0) else if i = 3 then ((610, 250), 0) else ((390, 250), 0)),
            Tick (\<lambda>i. if i = 7 then ((191, 412), 0) else if i = 3 then ((610, 250), 0) else ((390, 250), 0))]
           (construct 1000 600 0 0 (9 / 10) ''u'')) b\<bar> < pi / 2) \<and>
   heap (beforeUpdate (run (\<lambda>c. '''')
      [ImageLoaded 0,
       Tick (\<lambda>i. if i = 7 then ((88, 309), 0) else if i = 3 then ((610, 250), 0) else ((390, 250), 0)),
       Tick (\<lambda>i. if i = 7 then ((191, 412), 0) else if i = 3 then ((610, 250), 0) else ((390, 250), 0))]
      (construct 1000 600 0 0 (9 / 10) ''u'')))
     = heap (run (\<lambda>c. '''')
      [ImageLoaded 0,
       Tick (\<lambda>i. if i = 7 then ((88, 309), 0) else if i = 3 then ((610, 250), 0) else ((390, 250), 0)),
       Tick (\<lambda>i. if i = 7 then ((191, 412), 0) else if i = 3 then ((610, 250), 0) else ((390, 250), 0))]
      (construct 1000 600 0 0 (9 / 10) ''u''))"
proof -
  let ?S = "run (\<lambda>c. '''')
      [ImageLoaded 0,
       Tick (\<lambda>i. if i = 7 then ((88, 309), 0) else if i = 3 then ((610, 250), 0) else ((390, 250), 0)),
       Tick (\<lambda>i. if i = 7 then ((191, 412), 0) else if i = 3 then ((610, 250), 0) else ((390, 250), 0))]
      (construct 1000 600 0 0 (9 / 10) ''u'')"
  let ?b = "\<lparr>ident = 7, label = ''Circle Body'', isStatic = False, position = (191, 412), angle = 0,
       force = (0, 0), torque = 0, shape = Circle 50, texture = Some ''u'', maker = Pendulum,
       children = []\<rparr>"
  have r: "bigBall ?S = Some 7" by (simp add: build_defs tick_defs)
  have hb: "heap ?S 7 = Some ?b" by (simp add: build_defs tick_defs)
  have bb: "bigBallBody ?S = Some ?b" using r hb by (simp add: bigBallBody_def)
  have dir: "swingDirection ?S = 1" by (simp add: build_defs tick_defs)
  have w: "RenderWidth ?S = 1000" by (simp add: build_defs tick_defs)
  have ang: "swingAngle ?S ?b = atan2 412 (- 309)"
    by (simp add: swingAngle_def bigBallAnchorPoint_def w)
  have lo: "pi / 2 < swingAngle ?S ?b" unfolding ang by (rule atan2_left_below) simp_all
  have vert: "\<bar>spec_angleFromVertical ?S ?b\<bar> < pi / 2"
    using atan2_below[of 412 "- 309"]
    by (simp add: spec_angleFromVertical_def bigBallAnchorPoint_def w)
  have n3: "\<not> \<bar>swingAngle ?S ?b\<bar> < pi * 0.3" and n2: "\<not> \<bar>swingAngle ?S ?b\<bar> < pi / 2"
  proof -
    define th where "th = swingAngle ?S ?b"
    have "pi / 2 < th" using lo by (simp add: th_def)
    then have "\<not> \<bar>th\<bar> < pi * 0.3" "\<not> \<bar>th\<bar> < pi / 2" using pi_gt_zero by arith+
    then show "\<not> \<bar>swingAngle ?S ?b\<bar> < pi * 0.3" "\<not> \<bar>swingAngle ?S ?b\<bar> < pi / 2"
      by (simp_all add: th_def)
  qed
  have dir': "swingDirection (beforeUpdate ?S) = 1"
    unfolding beforeUpdate_direction[OF bb] using dir n3 by simp
  have "heap (beforeUpdate ?S) = heap ?S"
    unfolding beforeUpdate_heap_eq[OF r hb] using dir' n2 by simp
  moreover have "position ?b = (191, 412)" by simp
  ultimately show ?thesis using dir dir' bb vert by blast
qed

text \<open>
  C7, amended. While no pendulum body has been created the \<open>beforeUpdate\<close> handler
  does nothing. Otherwise, with \<open>\<theta>\<close> the \<open>Math.atan2\<close> angle of the body's offset from
  the anchor \<open>(RenderWidth / 2, 0)\<close>, which is measured from the positive x axis, and
  \<open>d\<close> the direction after the handler's flip check, the handler adds the force
  \<open>(50 d, 0)\<close> to the body, with no torque, exactly when \<open>d = 1\<close> and \<open>|\<theta>| < \<pi>/2\<close> or
  \<open>d = -1\<close> and \<open>|\<theta>| > \<pi>/2\<close>; otherwise it changes no body.
\<close>

theorem swing_force:
  "(bigBall st = None \<longrightarrow> beforeUpdate st = st) \<and>
   (bigBall st = Some r \<and> heap st r = Some b \<longrightarrow>
      swingAngle st b = atan2 (snd (position b) - 0) (fst (position b) - RenderWidth st / 2) \<and>
      heap (beforeUpdate st) =
        (if (swingDirection (beforeUpdate st) = 1 \<and> \<bar>swingAngle st b\<bar> < pi / 2) \<or>
            (swingDirection (beforeUpdate st) = -1 \<and> \<bar>swingAngle st b\<bar> > pi / 2)
         then (heap st)(r \<mapsto>
                b\<lparr>force := (fst (force b) + real_of_int (swingDirection (beforeUpdate st)) * 50,
                             snd (force b)),
                  torque := torque b\<rparr>)
         else heap st))"
proof -
  have 1: "beforeUpdate st = st" if "bigBall st = None"
    using that by (simp add: beforeUpdate_def)
  have 2: "swingAngle st b = atan2 (snd (position b) - 0) (fst (position b) - RenderWidth st / 2)"
    by (simp add: swingAngle_def bigBallAnchorPoint_def)
  show ?thesis using 1 2 beforeUpdate_heap_eq[of st r b] by blast
qed


lemma arctan_sqrt3: "arctan (sqrt 3) = pi / 3"
proof (rule arctan_unique)
  show "- (pi / 2) < pi / 3" using pi_gt_zero by arith
  show "pi / 3 < pi / 2" using pi_gt_zero by arith
  show "tan (pi / 3) = sqrt 3" by (rule tan_60)
qed

lemma atan2_sixty: "atan2 (515 * sqrt 3 / 2) (- (515 / 2)) = 2 * pi / 3"
proof -
  have q: "515 * sqrt 3 / 2 / (- (515 / 2)) = - sqrt 3" by simp
  have "0 \<le> 515 * sqrt 3 / 2" by simp
  then have "atan2 (515 * sqrt 3 / 2) (- (515 / 2)) = arctan (515 * sqrt 3 / 2 / (- (515 / 2))) + pi"
    by (simp add: atan2_def)
  then show ?thesis unfolding q by (simp add: arctan_minus arctan_sqrt3)
qed

lemma atan2_sixty_cmp [simp]:
  "\<not> pi * (7 / 10) < \<bar>atan2 (515 * sqrt 3 / 2) (- (515 / 2))\<bar>"
  "pi / 2 < \<bar>atan2 (515 * sqrt 3 / 2) (- (515 / 2))\<bar>"
  "\<not> pi * 7 < \<bar>atan2 (515 * sqrt 3 / 2) (- (515 / 2))\<bar> * 10"
  "pi < \<bar>atan2 (515 * sqrt 3 / 2) (- (515 / 2))\<bar> * 2"
  unfolding atan2_sixty using pi_gt_zero by simp_all

theorem swing_force_witness:
  "bigBall (run (\<lambda>c. '''')
      [ImageLoaded 0,
       Tick (\<lambda>i. if i = 7 then ((485 / 2, 515 * sqrt 3 / 2), 0) else if i = 3 then ((610, 250), 0) else ((390, 250), 0))]
      (construct 1000 600 0 0 (9 / 10) ''u'')) = Some 7 \<and>
   (\<exists>b. heap (run (\<lambda>c. '''')
           [ImageLoaded 0,
            Tick (\<lambda>i. if i = 7 then ((485 / 2, 515 * sqrt 3 / 2), 0) else if i = 3 then ((610, 250), 0) else ((390, 250), 0))]
           (construct 1000 600 0 0 (9 / 10) ''u'')) 7 = Some b \<and>
        force b = (0, 0) \<and>
        swingAngle (run (\<lambda>c. '''')
           [ImageLoaded 0,
            Tick (\<lambda>i. if i = 7 then ((485 / 2, 515 * sqrt 3 / 2), 0) else if i = 3 then ((610, 250), 0) else ((390, 250), 0))]
           (construct 1000 600 0 0 (9 / 10) ''u'')) b = 2 * pi / 3) \<and>
   (\<exists>b'. heap (beforeUpdate (run (\<lambda>c. '''')
           [ImageLoaded 0,
            Tick (\<lambda>i. if i = 7 then ((485 / 2, 515 * sqrt 3 / 2), 0) else if i = 3 then ((610, 250), 0) else ((390, 250), 0))]
           (construct 1000 600 0 0 (9 / 10) ''u''))) 7 = Some b' \<and>
        force b' = (- 50, 0) \<and> torque b' = 0)"
proof -
  let ?S = "run (\<lambda>c. '''')
      [ImageLoaded 0,
       Tick (\<lambda>i. if i = 7 then ((485 / 2, 515 * sqrt 3 / 2), 0) else if i = 3 then ((610, 250), 0) else ((390, 250), 0))]
      (construct 1000 600 0 0 (9 / 10) ''u'')"
  let ?b = "\<lparr>ident = 7, label = ''Circle Body'', isStatic = False,
       position = (485 / 2, 515 * sqrt 3 / 2),
       angle = 0, force = (0, 0), torque = 0, shape = Circle 50, texture = Some ''u'',
       maker = Pendulum, children = []\<rparr>"
  have r: "bigBall ?S = Some 7" by (simp add: build_defs tick_defs)
  have hb: "heap ?S 7 = Some ?b" by (simp add: build_defs tick_defs)
  have bb: "bigBallBody ?S = Some ?b" using r hb by (simp add: bigBallBody_def)
  have dir: "swingDirection ?S = - 1" by (simp add: build_defs tick_defs)
  have w: "RenderWidth ?S = 1000" by (simp add: build_defs tick_defs)
  have "swingAngle ?S ?b = atan2 (515 * sqrt 3 / 2) (- (515 / 2))"
    by (simp add: swingAngle_def bigBallAnchorPoint_def w)
  then have ang: "swingAngle ?S ?b = 2 * pi / 3" by (simp only: atan2_sixty)
  have abs: "\<bar>swingAngle ?S ?b\<bar> = 2 * pi / 3" unfolding ang using pi_gt_zero by simp
  have n7: "\<not> pi * 0.7 < \<bar>swingAngle ?S ?b\<bar>" unfolding abs using pi_gt_zero by simp
  have y2: "pi / 2 < \<bar>swingAngle ?S ?b\<bar>" unfolding abs using pi_gt_zero by simp
  have dir': "swingDirection (beforeUpdate ?S) = - 1"
    unfolding beforeUpdate_direction[OF bb] using dir n7 by simp
  from swing_force[of ?S 7 ?b] r hb
  have "heap (beforeUpdate ?S) =
        (if (swingDirection (beforeUpdate ?S) = 1 \<and> \<bar>swingAngle ?S ?b\<bar> < pi / 2) \<or>
            (swingDirection (beforeUpdate ?S) = -1 \<and> \<bar>swingAngle ?S ?b\<bar> > pi / 2)
         then (heap ?S)(7 \<mapsto>
                ?b\<lparr>force := (fst (force ?b) + real_of_int (swingDirection (beforeUpdate ?S)) * 50,
                             snd (force ?b)),
                  torque := torque ?b\<rparr>)
         else heap ?S)"
    by blast
  then have "heap (beforeUpdate ?S) 7 = Some (?b\<lparr>force := (- 50, 0), torque := 0\<rparr>)"
    unfolding dir' using y2 by simp
  then show ?thesis using r hb ang by simp
qed

subsection \<open>Rebuilding the world, and the image of the pendulum\<close>

























lemma allBodies_img_onload:
  assumes "wfWorld st"
  shows "allBodies (img_onload img st) = allBodies st @
     [Bodies_circle (nextId st) (RenderWidth st / 2) (constraintLength img + BIG_BALL_RADIUS)
       BIG_BALL_RADIUS False (Some (src img)) Pendulum]"
proof -
  have "nextId st \<notin> set (worldBodies st)"
  proof (rule wfW_notin[of "nextId st" "bigBallId st" _ "heap st"])
    show "wfW (nextId st) (bigBallId st) (worldBodies st) (heap st)"
      using assms by (simp add: wfWorld_def)
  qed simp
  then show ?thesis by (simp add: allBodies_def img_onload_fields map_filter_add)
qed

lemma allBodies_pending [simp]: "allBodies (st\<lparr>pendingImages := ps\<rparr>) = allBodies st"
  by (simp add: allBodies_def)










text \<open>
  C8, as stated, at a concrete input. The image of the pendulum fails to load after
  construction: the failure is logged, and the world holds no pendulum body, \<open>_bigBall\<close>
  is still undefined, and no load is pending that could add one.
\<close>

theorem image_failure_counterexample:
  "console (run (\<lambda>c. '''') [ImageFailed 0] (construct 1000 600 0 0 (9 / 10) ''u''))
     = [''Failed to load the SVG image:''] \<and>
   madeBy Pendulum (run (\<lambda>c. '''') [ImageFailed 0] (construct 1000 600 0 0 (9 / 10) ''u'')) = [] \<and>
   bigBall (run (\<lambda>c. '''') [ImageFailed 0] (construct 1000 600 0 0 (9 / 10) ''u'')) = None \<and>
   pendingImages (run (\<lambda>c. '''') [ImageFailed 0] (construct 1000 600 0 0 (9 / 10) ''u'')) = [] \<and>
   worldBodies (run (\<lambda>c. '''') [ImageFailed 0] (construct 1000 600 0 0 (9 / 10) ''u''))
     = worldBodies (construct 1000 600 0 0 (9 / 10) ''u'')"
  by (simp add: build_defs event_defs madeBy_def allBodies_def List.map_filter_def)

text \<open>
  C8, amended. When a pending image load fails, the failure is logged with
  \<open>console.error\<close> and nothing else happens: the load is no longer pending, and the
  world (its bodies, the objects, its constraints) and \<open>_bigBall\<close>, \<open>_bigBallId\<close> are as
  before, so the failed load adds no pendulum body. Later events find the instance in
  that state and run as usual.
\<close>

theorem image_failure_logged:
  "(k < length (pendingImages st) \<longrightarrow>
      console (step toDataURL (ImageFailed k) st) = console st @ [''Failed to load the SVG image:''] \<and>
      pendingImages (step toDataURL (ImageFailed k) st)
        = take k (pendingImages st) @ drop (Suc k) (pendingImages st)) \<and>
   worldBodies (step toDataURL (ImageFailed k) st) = worldBodies st \<and>
   heap (step toDataURL (ImageFailed k) st) = heap st \<and>
   worldConstraints (step toDataURL (ImageFailed k) st) = worldConstraints st \<and>
   madeBy Pendulum (step toDataURL (ImageFailed k) st) = madeBy Pendulum st \<and>
   bigBall (step toDataURL (ImageFailed k) st) = bigBall st \<and>
   bigBallId (step toDataURL (ImageFailed k) st) = bigBallId st \<and>
   emojiCount (step toDataURL (ImageFailed k) st) = emojiCount st"
  by (simp add: settle_def img_onerror_def madeBy_def allBodies_def)

theorem image_failure_logged_witness:
  "0 < length (pendingImages (construct 1000 600 0 0 (9 / 10) ''u'')) \<and>
   console (step (\<lambda>c. '''') (ImageFailed 0) (construct 1000 600 0 0 (9 / 10) ''u''))
     = [''Failed to load the SVG image:''] \<and>
   madeBy Pendulum (step (\<lambda>c. '''') (ImageFailed 0) (construct 1000 600 0 0 (9 / 10) ''u'')) = []"
proof -
  let ?st = "construct 1000 600 0 0 (9 / 10) ''u''"
  have k: "0 < length (pendingImages ?st)" by (simp add: build_defs)
  have c: "console ?st = []" by (simp add: build_defs)
  have p: "madeBy Pendulum ?st = []" by (simp add: build_defs madeBy_def allBodies_def List.map_filter_def)
  note t = image_failure_logged[of 0 ?st "\<lambda>c. ''''"]
  show ?thesis using t k c p by simp
qed

subsection \<open>The population bound\<close>

lemma map_maker_map_filter:
  assumes "\<forall>r\<in>set ws. map_option maker (h' r) = map_option maker (h r)"
  shows "map maker (List.map_filter h' ws) = map maker (List.map_filter h ws)"
  using assms
proof (induction ws)
  case Nil
  show ?case by (simp add: List.map_filter_simps)
next
  case (Cons r ws)
  then have r: "map_option maker (h' r) = map_option maker (h r)" by simp
  show ?case using Cons r
    by (cases "h r"; cases "h' r") (simp_all add: List.map_filter_simps)
qed

lemma length_madeBy: "length (madeBy m st) = length (filter (\<lambda>x. x = m) (map maker (allBodies st)))"
  by (simp add: madeBy_def filter_map comp_def)

lemma Body_applyForce_maker:
  "map_option maker (heap (Body_applyForce q pos f st) r) = map_option maker (heap st r)"
  by (auto simp: Body_applyForce_def split: option.splits)

lemma beforeUpdate_maker:
  "map_option maker (heap (beforeUpdate st) r) = map_option maker (heap st r)"
  using beforeUpdate_form[of st]
proof (elim disjE exE)
  assume "beforeUpdate st = st"
  then show ?thesis by simp
next
  fix d assume "beforeUpdate st = st\<lparr>swingDirection := d\<rparr>"
  then show ?thesis by simp
next
  fix q pos f assume "beforeUpdate st = Body_applyForce q pos f st"
  then show ?thesis by (simp add: Body_applyForce_maker)
next
  fix q pos f d assume "beforeUpdate st = Body_applyForce q pos f (st\<lparr>swingDirection := d\<rparr>)"
  then show ?thesis using Body_applyForce_maker[of q pos f "st\<lparr>swingDirection := d\<rparr>" r] by simp
qed

lemma maker_moveBody [simp]: "maker (moveBody mv b) = maker b"
  by (simp add: moveBody_def movePart_def)

lemma engineUpdate_makers: "map maker (allBodies (engineUpdate mv st)) = map maker (allBodies st)"
proof -
  have "map_option maker (heap (engineUpdate mv st) r) = map_option maker (heap st r)" for r
    using beforeUpdate_maker[of st r]
    by (cases "heap (beforeUpdate st) r") (simp_all add: engineUpdate_heap)
  then show ?thesis
    unfolding allBodies_def by (simp add: map_maker_map_filter)
qed

lemma engine_step_count:
  assumes wf: "wfWorld s" and ev: "spawnOrEngine ev" "\<not> isSpawn ev"
  shows "length (madeBy EmojiBall (step enc ev s)) = length (madeBy EmojiBall s)"
    and "emojiCount (step enc ev s) = emojiCount s"
proof -
  have "length (madeBy EmojiBall (step enc ev s)) = length (madeBy EmojiBall s) \<and>
        emojiCount (step enc ev s) = emojiCount s"
  proof (cases ev)
    case (Tick mv)
    then show ?thesis by (simp add: length_madeBy engineUpdate_makers)
  next
    case (ImageLoaded k)
    have "madeBy EmojiBall (img_onload img (s\<lparr>pendingImages := ps\<rparr>)) = madeBy EmojiBall s" for img ps
    proof -
      have "wfWorld (s\<lparr>pendingImages := ps\<rparr>)" using wf by simp
      from allBodies_img_onload[OF this, of img] show ?thesis
        by (simp add: madeBy_def Bodies_circle_def)
    qed
    then show ?thesis by (simp add: ImageLoaded settle_def img_onload_fields)
  next
    case (ImageFailed k)
    then show ?thesis by (simp add: settle_def img_onerror_def madeBy_def allBodies_def)
  qed (use ev in simp_all)
  then show "length (madeBy EmojiBall (step enc ev s)) = length (madeBy EmojiBall s)"
    and "emojiCount (step enc ev s) = emojiCount s" by simp_all
qed

lemma events_count:
  assumes "wfWorld s" "\<forall>ev\<in>set evs. spawnOrEngine ev"
  shows "length (madeBy EmojiBall (run enc evs s)) =
           length (madeBy EmojiBall s) + min (length (filter isSpawn evs)) (nat (MAX_EMOJIS - emojiCount s)) \<and>
         emojiCount (run enc evs s) =
           emojiCount s + int (min (length (filter isSpawn evs)) (nat (MAX_EMOJIS - emojiCount s)))"
  using assms
proof (induction evs arbitrary: s)
  case Nil
  show ?case by (simp add: run_def)
next
  case (Cons ev evs)
  have wf1: "wfWorld (step enc ev s)" using Cons.prems(1) by (rule wfWorld_step)
  have rest: "\<forall>ev\<in>set evs. spawnOrEngine ev" and this_ev: "spawnOrEngine ev"
    using Cons.prems(2) by simp_all
  note IH = Cons.IH[OF wf1 rest]
  have run: "run enc (ev # evs) s = run enc evs (step enc ev s)" by (simp add: run_def)
  show ?case
  proof (cases "isSpawn ev")
    case False
    note same = engine_step_count[OF Cons.prems(1) this_ev False, of enc]
    show ?thesis unfolding run using IH same False by simp
  next
    case True
    then obtain e r where ev: "ev = CallCreateEmojiBall e r" by (cases ev) simp_all
    note one = madeBy_CreateEmojiBall[OF Cons.prems(1), of enc e r]
    show ?thesis
    proof (cases "emojiCount s < MAX_EMOJIS")
      case True
      then show ?thesis unfolding run using IH one by (simp add: ev min_def) linarith
    next
      case False
      then show ?thesis unfolding run using IH one by (simp add: ev)
    qed
  qed
qed

text \<open>
  What holds of the population while no frame is rendered and no other method is
  called: on a newly constructed instance, after any sequence of \<open>CreateEmojiBall\<close>
  calls, with engine ticks and image loads or failures in between, the world holds
  \<open>min (number of calls) 1000\<close> emoji balls and the counter equals that number. And in
  any state, a call made while the counter is at (or above) the cap returns \<open>undefined\<close>
  and leaves the instance as it was, the world and the counter included; its only
  effect is the \<open>console.error\<close> message.
\<close>

lemma population_without_frames:
  "((\<forall>ev\<in>set evs. spawnOrEngine ev) \<longrightarrow>
      length (madeBy EmojiBall (run toDataURL evs (construct w h t n0 rnd url)))
        = min (length (filter isSpawn evs)) (nat MAX_EMOJIS) \<and>
      int (length (madeBy EmojiBall (run toDataURL evs (construct w h t n0 rnd url))))
        \<le> MAX_EMOJIS \<and>
      emojiCount (run toDataURL evs (construct w h t n0 rnd url))
        = int (length (madeBy EmojiBall (run toDataURL evs (construct w h t n0 rnd url))))) \<and>
   (MAX_EMOJIS \<le> emojiCount st \<longrightarrow>
      CreateEmojiBall toDataURL emoji r st =
        (None, st\<lparr>console := console st @ [''Max emoji count exceeded...'']\<rparr>))"
proof -
  have 1: "length (madeBy EmojiBall (run toDataURL evs (construct w h t n0 rnd url)))
        = min (length (filter isSpawn evs)) (nat MAX_EMOJIS) \<and>
      int (length (madeBy EmojiBall (run toDataURL evs (construct w h t n0 rnd url))))
        \<le> MAX_EMOJIS \<and>
      emojiCount (run toDataURL evs (construct w h t n0 rnd url))
        = int (length (madeBy EmojiBall (run toDataURL evs (construct w h t n0 rnd url))))"
    if q: "\<forall>ev\<in>set evs. spawnOrEngine ev"
  proof -
    note c = events_count[OF wfWorld_construct q, of toDataURL w h t n0 rnd url]
    have len: "length (madeBy EmojiBall (run toDataURL evs (construct w h t n0 rnd url)))
        = min (length (filter isSpawn evs)) (nat MAX_EMOJIS)"
      using c by (simp add: construct_start)
    have cnt: "emojiCount (run toDataURL evs (construct w h t n0 rnd url))
        = int (min (length (filter isSpawn evs)) (nat MAX_EMOJIS))"
      using c by (simp add: construct_start)
    have le: "int (min (length (filter isSpawn evs)) (nat MAX_EMOJIS)) \<le> MAX_EMOJIS"
      by (simp add: MAX_EMOJIS_def)
    show ?thesis using len cnt le by simp
  qed
  have 2: "CreateEmojiBall toDataURL emoji r st =
        (None, st\<lparr>console := console st @ [''Max emoji count exceeded...'']\<rparr>)"
    if "MAX_EMOJIS \<le> emojiCount st"
    using that by (rule CreateEmojiBall_full)
  show ?thesis using 1 2 by blast
qed

lemma population_without_frames_example:
  "length (madeBy EmojiBall
      (run (\<lambda>c. '''') (ImageLoaded 0 # Tick (\<lambda>i. if i = 7 then ((500, 515), 0) else if i = 3 then ((610, 250), 0)
            else ((390, 250), 0)) #
          replicate 1001 (CallCreateEmojiBall ''x'' (1 / 2)))
         (construct 1000 600 0 0 (9 / 10) ''u''))) = 1000 \<and>
   MAX_EMOJIS \<le> emojiCount
      (run (\<lambda>c. '''') (ImageLoaded 0 # Tick (\<lambda>i. if i = 7 then ((500, 515), 0) else if i = 3 then ((610, 250), 0)
            else ((390, 250), 0)) #
          replicate 1001 (CallCreateEmojiBall ''x'' (1 / 2)))
         (construct 1000 600 0 0 (9 / 10) ''u'')) \<and>
   fst (CreateEmojiBall (\<lambda>c. '''') ''x'' (1 / 2)
      (run (\<lambda>c. '''') (ImageLoaded 0 # Tick (\<lambda>i. if i = 7 then ((500, 515), 0) else if i = 3 then ((610, 250), 0)
            else ((390, 250), 0)) #
          replicate 1001 (CallCreateEmojiBall ''x'' (1 / 2)))
         (construct 1000 600 0 0 (9 / 10) ''u''))) = None"
proof -
  let ?evs = "ImageLoaded 0 # Tick (\<lambda>i. if i = 7 then ((500, 515), 0) else if i = 3 then ((610, 250), 0)
            else ((390, 250), 0)) #
          replicate 1001 (CallCreateEmojiBall ''x'' (1 / 2))"
  let ?S = "run (\<lambda>c. '''') ?evs (construct 1000 600 0 0 (9 / 10) ''u'')"
  have q: "\<forall>ev\<in>set ?evs. spawnOrEngine ev" by auto
  have n: "length (filter isSpawn ?evs) = 1001" by simp
  note a = population_without_frames[of ?evs "\<lambda>c. ''''" 1000 600 0 0 "9 / 10" "''u''" ?S "''x''" "1 / 2"]
  have len: "length (madeBy EmojiBall ?S) = 1000" using a q unfolding n by (simp add: MAX_EMOJIS_def)
  have cap: "MAX_EMOJIS \<le> emojiCount ?S" using a q len by (simp add: MAX_EMOJIS_def)
  have "fst (CreateEmojiBall (\<lambda>c. '''') ''x'' (1 / 2) ?S) = None" using a cap by simp
  then show ?thesis using len cap by simp
qed

text \<open>
  C1, at a failing input. The renderer fires \<open>afterRender\<close> on its own, so frames come
  between the calls of \<open>CreateEmojiBall\<close>. In a container of 200 by 600 with the
  paddlewheel layout (\<open>Math.random() = 0.6\<close> in \<open>Init\<close>) the two wheels are pinned at
  \<open>x = 215\<close> and \<open>x = -15\<close>, outside the playfield; the cleanup pass of the first frame
  takes the central circle part of each for an emoji out of bounds and decrements the
  counter to -2 while removing nothing. After that 1002 calls of \<open>CreateEmojiBall\<close> all
  add a ball: 1002 emoji balls are alive, more than \<open>MAX_EMOJIS\<close>. The same happens in a
  container of 1000 by 600 after one call of \<open>ClearAllEmojis\<close>.
\<close>

theorem population_exceeds_cap:
  "emojiCount (run (\<lambda>c. '''') [Frame] (construct 200 600 0 0 (6 / 10) ''u'')) = - 2 \<and>
   madeBy EmojiBall (run (\<lambda>c. '''') [Frame] (construct 200 600 0 0 (6 / 10) ''u'')) = [] \<and>
   length (madeBy EmojiBall
      (run (\<lambda>c. '''') (Frame # replicate 1002 (CallCreateEmojiBall ''x'' (1 / 2)))
         (construct 200 600 0 0 (6 / 10) ''u''))) = 1002 \<and>
   length (madeBy EmojiBall
      (run (\<lambda>c. '''') (CallClearAllEmojis # replicate 1002 (CallCreateEmojiBall ''x'' (1 / 2)))
         (construct 1000 600 0 0 (6 / 10) ''u''))) = 1002 \<and>
   MAX_EMOJIS < 1002"
proof -
  let ?calls = "replicate 1002 (''x'', 1 / 2 :: real)"
  have m: "map (\<lambda>c. CallCreateEmojiBall (fst c) (snd c)) ?calls
      = replicate 1002 (CallCreateEmojiBall ''x'' (1 / 2))" by simp
  let ?s = "afterRender (construct 200 600 0 0 (6 / 10) ''u'')"
  let ?c = "ClearAllEmojis (construct 1000 600 0 0 (6 / 10) ''u'')"
  have wfs: "wfWorld ?s" by (rule wfWorld_afterRender[OF wfWorld_construct])
  have wfc: "wfWorld ?c" by (rule wfWorld_ClearAllEmojis[OF wfWorld_construct])
  have cs: "emojiCount ?s = - 2"
    by (simp add: build_defs afterRender_def allBodies_def List.map_filter_def parts_def
        cleanupPart_def isEmoji_def outOfBounds_def World_remove_def part.truncate_def)
  have ns: "madeBy EmojiBall ?s = []"
    by (simp add: build_defs afterRender_def allBodies_def List.map_filter_def parts_def
        cleanupPart_def isEmoji_def outOfBounds_def World_remove_def part.truncate_def madeBy_def)
  have cc: "emojiCount ?c = - 2"
    by (simp add: build_defs ClearAllEmojis_def allBodies_def List.map_filter_def parts_def
        clearPart_def isEmoji_def World_remove_def part.truncate_def)
  have nc: "madeBy EmojiBall ?c = []"
    by (simp add: build_defs ClearAllEmojis_def allBodies_def List.map_filter_def parts_def
        clearPart_def isEmoji_def World_remove_def part.truncate_def madeBy_def)
  have 1: "length (madeBy EmojiBall (run (\<lambda>c. '''') (replicate 1002 (CallCreateEmojiBall ''x'' (1 / 2))) ?s)) = 1002"
    using creates_count[OF wfs, of "\<lambda>c. ''''" ?calls, unfolded m cs ns]
    by (simp add: MAX_EMOJIS_def)
  have 2: "length (madeBy EmojiBall (run (\<lambda>c. '''') (replicate 1002 (CallCreateEmojiBall ''x'' (1 / 2))) ?c)) = 1002"
    using creates_count[OF wfc, of "\<lambda>c. ''''" ?calls, unfolded m cc nc]
    by (simp add: MAX_EMOJIS_def)
  have r1: "run (\<lambda>c. '''') (Frame # replicate 1002 (CallCreateEmojiBall ''x'' (1 / 2)))
         (construct 200 600 0 0 (6 / 10) ''u'')
       = run (\<lambda>c. '''') (replicate 1002 (CallCreateEmojiBall ''x'' (1 / 2))) ?s"
    by (simp add: run_def)
  have r2: "run (\<lambda>c. '''') (CallClearAllEmojis # replicate 1002 (CallCreateEmojiBall ''x'' (1 / 2)))
         (construct 1000 600 0 0 (6 / 10) ''u'')
       = run (\<lambda>c. '''') (replicate 1002 (CallCreateEmojiBall ''x'' (1 / 2))) ?c"
    by (simp add: run_def)
  have r0: "run (\<lambda>c. '''') [Frame] (construct 200 600 0 0 (6 / 10) ''u'') = ?s"
    by (simp add: run_def)
  show ?thesis unfolding r0 r1 r2 using cs ns 1 2 by (simp add: MAX_EMOJIS_def)
qed

end
